theory Spec2Isabelle
  imports Complex_Main "HOL-Library.Word" "HOL-Library.Signed_Division"
begin

section \<open>Data model of the shape inference engine\<close>

text \<open>
  Dimension sizes are \<open>int64_t\<close>: 64-bit words whose arithmetic wraps, read as two's
  complement by \<open>sint\<close>. Ranks and indices into a shape are vector sizes; they stay far
  below \<open>2 ^ 63\<close>, so the conversions between \<open>size_t\<close>, \<open>int\<close> and \<open>int64_t\<close> that the
  source applies to them lose nothing and they are written as \<open>nat\<close> or \<open>int\<close>.
\<close>

type_synonym int64 = "64 word"

text \<open>\<open>VariableMeta\<close>: the shape of a value and, for a non-tensor value, its payload.\<close>

record VariableMeta =
  shape :: "int64 list"
  intValue :: "int64 list"

type_synonym MetaStack = "VariableMeta list"

text \<open>
  The source reports every recoverable failure through \<open>MAKE_ERR\<close> or
  \<open>RETURN_ERR_IF_NOT\<close> with a message; the constructors below name the message's
  category (the text and the sizes formatted into it are not kept):
  \<^item> \<open>ArityMismatch\<close>: "Expected ... inputs", "Number of inputs mismatch ...";
  \<^item> \<open>ShapeMismatch\<close>: "The size of tensor a must match ...", "Sizes of tensors must match ...";
  \<^item> \<open>RankMismatch\<close>: "Expected 2-dimensional tensor.", "All inputs must have the same
    number of dimensions.";
  \<^item> \<open>DimOutOfRange\<close>: "Dim value is out of range.";
  \<^item> \<open>UnsupportedInputKind\<close>: "Input type doesn't support yet.";
  \<^item> \<open>UnsupportedOperator\<close>: "Node's operator ... is not supported".
  Two more outcomes are not \<open>Error\<close> values of the source but ways it stops:
  \<open>CheckFailed\<close> is a failed \<open>CHECK\<close> or a failed assertion of the graph library,
  which ends the pass without an \<open>Error\<close> value, and
  \<open>UndefinedBehaviour\<close> is a vector read or write outside its bounds or a division
  that C++ leaves undefined.
\<close>

datatype error =
    ArityMismatch
  | ShapeMismatch
  | RankMismatch
  | DimOutOfRange
  | UnsupportedInputKind
  | UnsupportedOperator
  | CheckFailed
  | UndefinedBehaviour

text \<open>
  \<open>v[k]\<close> on a \<open>std::vector\<close> where the index is computed in \<open>size_t\<close>. The index is
  given as the mathematical value of the expression; a negative value stands for the
  wrapped \<open>size_t\<close> value \<open>2 ^ 64 + k\<close>, beyond the end of every vector.
\<close>

definition vec_at :: "'a list \<Rightarrow> int \<Rightarrow> error + 'a" where
  "vec_at v k = (if 0 \<le> k \<and> nat k < length v then Inr (v ! nat k) else Inl UndefinedBehaviour)"

section \<open>Operator shape rules\<close>

subsection \<open>binaryOp\<close>

text \<open>
  The loop of \<open>binaryOp\<close>, \<open>for (auto i = 0; i < dim; i++)\<close> with \<open>j = -1 - i\<close>. The
  reads \<open>t0[d0 + j]\<close> and \<open>t1[d1 + j]\<close> in the conditions are guarded by \<open>i >= d0\<close> and
  \<open>i >= d1\<close>; the read \<open>t1[d1 + j]\<close> in the first branch is not guarded by anything.
  \<open>out\<close> is the vector \<open>shape\<close> of the source and \<open>ndim\<close> its \<open>dim\<close>.
\<close>

function binaryOp_loop ::
  "int64 list \<Rightarrow> int64 list \<Rightarrow> nat \<Rightarrow> nat \<Rightarrow> int64 list \<Rightarrow> error + int64 list" where
  "binaryOp_loop t0 t1 ndim i out =
     (if i < ndim then
        (let d0 = length t0; d1 = length t1; j = - 1 - int i in
         if i \<ge> d0 \<or> t0 ! nat (int d0 + j) = 1 then
           (case vec_at t1 (int d1 + j) of
              Inl e \<Rightarrow> Inl e
            | Inr x \<Rightarrow> binaryOp_loop t0 t1 ndim (Suc i) (out[nat (int ndim + j) := x]))
         else if i \<ge> d1 \<or> t1 ! nat (int d1 + j) = 1 then
           binaryOp_loop t0 t1 ndim (Suc i) (out[nat (int ndim + j) := t0 ! nat (int d0 + j)])
         else if t1 ! nat (int d1 + j) \<noteq> t0 ! nat (int d0 + j) then Inl ShapeMismatch
         else binaryOp_loop t0 t1 ndim (Suc i) (out[nat (int ndim + j) := t1 ! nat (int d1 + j)]))
      else Inr out)"
  by pat_completeness auto
termination
  by (relation "measure (\<lambda>(t0, t1, ndim, i, out). ndim - i)") auto

declare binaryOp_loop.simps [simp del]

definition binaryOp :: "MetaStack \<Rightarrow> error + int64 list" where
  "binaryOp varibableMetas =
     (if length varibableMetas \<noteq> 2 \<and> length varibableMetas \<noteq> 3 then Inl ArityMismatch
      else
        let t0 = shape (varibableMetas ! 0);
            t1 = shape (varibableMetas ! 1);
            d0 = length t0;
            d1 = length t1
        in if d1 = 1 then Inr t0
           else let ndim = max d0 d1 in binaryOp_loop t0 t1 ndim 0 (replicate ndim 0))"

subsection \<open>mm and bmm\<close>

definition mm :: "MetaStack \<Rightarrow> error + int64 list" where
  "mm varibableMetas =
     (if length varibableMetas \<noteq> 2 then Inl ArityMismatch
      else
        let t0 = shape (varibableMetas ! 0);
            t1 = shape (varibableMetas ! 1)
        in if \<not> (length t1 = 2 \<and> length t0 = 2) then Inl RankMismatch
           else if t0 ! 1 \<noteq> t1 ! 0 then Inl ShapeMismatch
           else Inr [t0 ! 0, t1 ! 1])"

definition bmm :: "MetaStack \<Rightarrow> error + int64 list" where
  "bmm varibableMetas =
     (if length varibableMetas \<noteq> 2 then Inl ArityMismatch
      else
        let t0 = shape (varibableMetas ! 0);
            t1 = shape (varibableMetas ! 1)
        in if \<not> (length t0 = 3 \<and> length t1 = 3) then Inl RankMismatch
           else if t0 ! 0 \<noteq> t1 ! 0 then Inl ShapeMismatch
           else if t0 ! 2 \<noteq> t1 ! 1 then Inl ShapeMismatch
           else Inr [t0 ! 0, t0 ! 1, t1 ! 2])"

subsection \<open>addmm\<close>

text \<open>
  \<open>VariableMeta t;\<close> starts with an empty shape and an empty payload; in the scalar
  case it is a copy of the second input, otherwise only its shape is assigned.
\<close>

definition addmm :: "MetaStack \<Rightarrow> error + int64 list" where
  "addmm varibableMetas =
     (if \<not> length varibableMetas \<ge> 3 then Inl ArityMismatch
      else
        let t0 = varibableMetas ! 0;
            t1 = varibableMetas ! 1;
            t2 = varibableMetas ! 2
        in if length (shape (varibableMetas ! 2)) = 1 then binaryOp [t0, varibableMetas ! 1]
           else (case mm [t1, t2] of
                   Inl e \<Rightarrow> Inl e
                 | Inr s \<Rightarrow> binaryOp [t0, \<lparr>shape = s, intValue = []\<rparr>]))"

subsection \<open>constantChunk\<close>

text \<open>
  \<open>for (int i = 0; i < chunks; i++)\<close>: each round appends a copy of the input shape
  whose entry at the split dimension is \<open>r\<close> in the round \<open>i == chunks - 1\<close> and \<open>c\<close>
  in the others. \<open>sh\<close> is \<open>varibableMetas[0].shape\<close> and \<open>d\<close> the checked dimension.
  The counter is an \<open>int\<close> in the source; the model counts in \<open>nat\<close> and so goes on
  past \<open>2 ^ 31 - 1\<close>, where the source would already have run out of memory.
\<close>

function constantChunk_loop ::
  "int64 list \<Rightarrow> nat \<Rightarrow> int64 \<Rightarrow> int64 \<Rightarrow> int64 \<Rightarrow> nat \<Rightarrow> int64 list list \<Rightarrow> int64 list list" where
  "constantChunk_loop sh d chunks c r i outShapes =
     (if int i < sint chunks then
        constantChunk_loop sh d chunks c r (Suc i)
          (outShapes @ [sh[d := (if int i = sint (chunks - 1) then r else c)]])
      else outShapes)"
  by pat_completeness auto
termination
  by (relation "measure (\<lambda>(sh, d, chunks, c, r, i, outShapes). nat (sint chunks) - i)") auto

declare constantChunk_loop.simps [simp del]

text \<open>
  \<open>dimv\<close> is the attribute \<open>dim\<close>. A negative value gets the rank added; a negative
  \<open>int64_t\<close> plus a rank cannot overflow, so the normalised value is an \<open>int\<close>. The
  quotient \<open>/\<close> of C++ truncates towards zero (\<open>sdiv\<close> on \<open>int\<close>); it is undefined for
  a zero divisor and for the one quotient that does not fit, \<open>INT64_MIN / -1\<close>.
\<close>

definition constantChunk :: "MetaStack \<Rightarrow> int64 \<Rightarrow> int64 \<Rightarrow> error + int64 list list" where
  "constantChunk varibableMetas chunks dimv =
     (if length varibableMetas \<noteq> 1 then Inl ArityMismatch
      else
        let sh = shape (varibableMetas ! 0);
            d = (if sint dimv < 0 then sint dimv + int (length sh) else sint dimv)
        in if \<not> (d < int (length sh) \<and> d \<ge> 0) then Inl DimOutOfRange
           else
             let num = sh ! nat d + chunks - 1
             in if chunks = 0 \<or> (num = - (2 ^ 63) \<and> chunks = - 1) then Inl UndefinedBehaviour
                else
                  let c = (word_of_int (sint num sdiv sint chunks) :: int64);
                      r = sh ! nat d - c * (chunks - 1)
                  in Inr (constantChunk_loop sh (nat d) chunks c r 0 []))"

subsection \<open>fusedConcat\<close>

text \<open>
  The inner loop \<open>for (int j = 0; j < inDims; j++)\<close> for one later input \<open>ti\<close>, and the
  outer loop \<open>for (int i = 1; i < varibableMetas.size(); ++i)\<close>. \<open>acc\<close> is the vector
  \<open>shape\<close> of the source, which starts as a copy of the first input's shape. In
  \<open>fusedConcat\<close>, \<open>dimv\<close> is the attribute \<open>dim\<close> and \<open>d\<close> its normalised value.
\<close>

function fusedConcat_inner ::
  "int64 list \<Rightarrow> int64 list \<Rightarrow> nat \<Rightarrow> nat \<Rightarrow> nat \<Rightarrow> error + int64 list" where
  "fusedConcat_inner acc ti inDims d j =
     (if j < inDims then
        (if j = d then fusedConcat_inner (acc[d := acc ! d + ti ! d]) ti inDims d (Suc j)
         else if \<not> (acc ! j = ti ! j) then Inl ShapeMismatch
         else fusedConcat_inner acc ti inDims d (Suc j))
      else Inr acc)"
  by pat_completeness auto
termination
  by (relation "measure (\<lambda>(acc, ti, inDims, d, j). inDims - j)") auto

declare fusedConcat_inner.simps [simp del]

function fusedConcat_outer ::
  "MetaStack \<Rightarrow> nat \<Rightarrow> nat \<Rightarrow> nat \<Rightarrow> int64 list \<Rightarrow> error + int64 list" where
  "fusedConcat_outer varibableMetas inDims d i acc =
     (if i < length varibableMetas then
        (if \<not> (inDims = length (shape (varibableMetas ! i))) then Inl RankMismatch
         else (case fusedConcat_inner acc (shape (varibableMetas ! i)) inDims d 0 of
                 Inl e \<Rightarrow> Inl e
               | Inr acc' \<Rightarrow> fusedConcat_outer varibableMetas inDims d (Suc i) acc'))
      else Inr acc)"
  by pat_completeness auto
termination
  by (relation "measure (\<lambda>(varibableMetas, inDims, d, i, acc). length varibableMetas - i)") auto

declare fusedConcat_outer.simps [simp del]

definition fusedConcat :: "MetaStack \<Rightarrow> int64 \<Rightarrow> error + int64 list" where
  "fusedConcat varibableMetas dimv =
     (if \<not> length varibableMetas \<ge> 1 then Inl ArityMismatch
      else if length varibableMetas = 1 then Inr (shape (varibableMetas ! 0))
      else
        let sh = shape (varibableMetas ! 0);
            inDims = length sh;
            d = (if sint dimv < 0 then sint dimv + int inDims else sint dimv)
        in if \<not> (d < int inDims \<and> d \<ge> 0) then Inl DimOutOfRange
           else fusedConcat_outer varibableMetas inDims (nat d) 1 sh)"

section \<open>The graph, the inputs and the engine\<close>

text \<open>
  The graph and the input instances belong to the external library; only what the
  engine reads of them is kept. A value of the graph is identified by a number. A node
  has its operator kind, its input and output values, the declared type of its output
  (read for \<open>prim::Constant\<close> only) and the attributes \<open>value\<close> (as an integer and as
  the sizes of a tensor), \<open>chunks\<close> and \<open>dim\<close>.
\<close>

datatype NodeKind =
    Constant | Tanh | Relu | Sigmoid | Sub | Pow | Mul | Add
  | Mm | Addmm | Bmm | FusedConcat | ConstantChunk | OtherKind

datatype TypeKind = FloatType | IntType | BoolType | NoneType | TensorType | OtherType

record Node =
  n_kind :: NodeKind
  n_inputs :: "nat list"
  n_outputs :: "nat list"
  n_type :: TypeKind
  attr_value :: int64
  attr_tensor :: "int64 list"
  attr_chunks :: int64
  attr_dim :: int64

record Graph =
  g_inputs :: "nat list"
  g_nodes :: "Node list"
  g_outputs :: "nat list"

datatype IValue =
    IVTensor "int64 list"
  | IVBool bool
  | IVInt int64
  | IVIntList "int64 list"
  | IVOther

text \<open>
  Modelled from the spec: \<open>IValue::toInt\<close> belongs to the tensor library and is not in
  this repository. The spec stores the value of a boolean or integer instance; a boolean
  is taken as 0 or 1.
\<close>

fun toInt :: "IValue \<Rightarrow> int64" where
  "toInt (IVInt n) = n"
| "toInt (IVBool b) = (if b then 1 else 0)"
| "toInt _ = 0"

type_synonym ShapeMap = "nat \<rightharpoonup> VariableMeta"

record Engine =
  shapeMap :: ShapeMap
  outputShape :: "int64 list list"

text \<open>
  \<open>shapeMap_[k].shape = s\<close> and \<open>shapeMap_[k].intValue = v\<close>: \<open>operator[]\<close> of the map
  inserts an empty \<open>VariableMeta\<close> when the key is new.
\<close>

definition set_shape :: "ShapeMap \<Rightarrow> nat \<Rightarrow> int64 list \<Rightarrow> ShapeMap" where
  "set_shape m k s =
     m(k \<mapsto> (case m k of None \<Rightarrow> \<lparr>shape = s, intValue = []\<rparr> | Some x \<Rightarrow> x\<lparr>shape := s\<rparr>))"

definition set_intValue :: "ShapeMap \<Rightarrow> nat \<Rightarrow> int64 list \<Rightarrow> ShapeMap" where
  "set_intValue m k v =
     m(k \<mapsto> (case m k of None \<Rightarrow> \<lparr>shape = [], intValue = v\<rparr> | Some x \<Rightarrow> x\<lparr>intValue := v\<rparr>))"

fun getNodeInputShape :: "ShapeMap \<Rightarrow> nat list \<Rightarrow> MetaStack \<Rightarrow> error + MetaStack" where
  "getNodeInputShape m [] inputMetas = Inr inputMetas"
| "getNodeInputShape m (input # rest) inputMetas =
     (case m input of
        None \<Rightarrow> Inl CheckFailed
      | Some meta \<Rightarrow> getNodeInputShape m rest (inputMetas @ [meta]))"

text \<open>\<open>node->output()\<close> asserts that the node has exactly one output.\<close>

definition primConstant :: "Node \<Rightarrow> error + int64 list" where
  "primConstant node =
     (case n_outputs node of
        [out] \<Rightarrow>
          (if n_type node = FloatType then Inr [1]
           else if n_type node = IntType then Inr [attr_value node]
           else if n_type node = BoolType then Inr [attr_value node]
           else if n_type node = NoneType then Inr []
           else if n_type node = TensorType then Inr (attr_tensor node)
           else Inr [])
      | _ \<Rightarrow> Inl CheckFailed)"

text \<open>
  The loop that stores \<open>outputShapesOrValues[i]\<close> at \<open>node->output(i)\<close>; reading past
  the end of \<open>outputShapesOrValues\<close> is undefined.
\<close>

fun putOutputs :: "ShapeMap \<Rightarrow> nat list \<Rightarrow> int64 list list \<Rightarrow> error + ShapeMap" where
  "putOutputs m [] vs = Inr m"
| "putOutputs m (out # outs) [] = Inl UndefinedBehaviour"
| "putOutputs m (out # outs) (v # vs) = putOutputs (set_shape m out v) outs vs"

text \<open>The \<open>switch (kind)\<close> of \<open>shapeOnNode\<close>: the value of \<open>outputShapesOrValues\<close>.\<close>

definition opRule :: "Node \<Rightarrow> MetaStack \<Rightarrow> error + int64 list list" where
  "opRule node inputMetas =
     (let one = (\<lambda>res. case res of Inl e \<Rightarrow> Inl e | Inr v \<Rightarrow> Inr [v]);
          kind = n_kind node
      in if kind = Constant then one (primConstant node)
         else if kind = Tanh \<or> kind = Relu \<or> kind = Sigmoid then
           (if \<not> (length inputMetas = 1) then Inl ArityMismatch
            else Inr [shape (inputMetas ! 0)])
         else if kind = Sub \<or> kind = Pow \<or> kind = Mul \<or> kind = Add then one (binaryOp inputMetas)
         else if kind = Mm then one (mm inputMetas)
         else if kind = Addmm then one (addmm inputMetas)
         else if kind = Bmm then one (bmm inputMetas)
         else if kind = FusedConcat then one (fusedConcat inputMetas (attr_dim node))
         else if kind = ConstantChunk then
           constantChunk inputMetas (attr_chunks node) (attr_dim node)
         else Inl UnsupportedOperator)"

definition shapeOnNode :: "ShapeMap \<Rightarrow> Node \<Rightarrow> error + ShapeMap" where
  "shapeOnNode m node =
     (case getNodeInputShape m (n_inputs node) [] of
        Inl e \<Rightarrow> Inl e
      | Inr inputMetas \<Rightarrow>
          (case opRule node inputMetas of
             Inl e \<Rightarrow> Inl e
           | Inr outputShapesOrValues \<Rightarrow>
               if n_kind node = Constant then
                 (case n_outputs node of
                    [out] \<Rightarrow>
                      (if n_type node = TensorType
                       then Inr (set_shape m out (outputShapesOrValues ! 0))
                       else Inr (set_intValue (set_shape m out [1]) out (outputShapesOrValues ! 0)))
                  | _ \<Rightarrow> Inl CheckFailed)
               else putOutputs m (n_outputs node) outputShapesOrValues))"

text \<open>
  \<open>getGraphIntputShape\<close> walks the inputs by index; the store keeps what was written
  before a failure. \<open>graph_.inputs()[i]\<close> past the end is undefined (\<open>run\<close> excludes it).
\<close>

fun getGraphIntputShape :: "nat list \<Rightarrow> IValue list \<Rightarrow> ShapeMap \<Rightarrow> error option \<times> ShapeMap" where
  "getGraphIntputShape gIns [] m = (None, m)"
| "getGraphIntputShape [] (input # rest) m = (Some UndefinedBehaviour, m)"
| "getGraphIntputShape (gInName # gIns) (input # rest) m =
     (let m0 = m(gInName \<mapsto> \<lparr>shape = [], intValue = []\<rparr>)
      in case input of
           IVTensor sizes \<Rightarrow>
             getGraphIntputShape gIns rest (m0(gInName \<mapsto> \<lparr>shape = sizes, intValue = []\<rparr>))
         | IVBool b \<Rightarrow>
             getGraphIntputShape gIns rest (m0(gInName \<mapsto> \<lparr>shape = [1], intValue = [toInt input]\<rparr>))
         | IVInt n \<Rightarrow>
             getGraphIntputShape gIns rest (m0(gInName \<mapsto> \<lparr>shape = [1], intValue = [toInt input]\<rparr>))
         | IVIntList ptIntList \<Rightarrow>
             getGraphIntputShape gIns rest
               (m0(gInName \<mapsto> \<lparr>shape = [of_nat (length ptIntList), 1], intValue = ptIntList\<rparr>))
         | IVOther \<Rightarrow> (Some UnsupportedInputKind, m0))"

fun generateGraphOutputShape :: "ShapeMap \<Rightarrow> nat list \<Rightarrow> int64 list list \<Rightarrow> error option \<times> int64 list list" where
  "generateGraphOutputShape m [] acc = (None, acc)"
| "generateGraphOutputShape m (output # rest) acc =
     (case m output of
        None \<Rightarrow> (Some CheckFailed, acc)
      | Some meta \<Rightarrow> generateGraphOutputShape m rest (acc @ [shape meta]))"

text \<open>The loop \<open>for (auto *node : graph_.nodes())\<close> of \<open>run\<close>.\<close>

fun run_nodes :: "ShapeMap \<Rightarrow> Node list \<Rightarrow> error option \<times> ShapeMap" where
  "run_nodes m [] = (None, m)"
| "run_nodes m (node # rest) =
     (case shapeOnNode m node of
        Inl e \<Rightarrow> (Some e, m)
      | Inr m' \<Rightarrow> run_nodes m' rest)"

text \<open>
  \<open>run\<close> returns its \<open>Error\<close> (\<open>None\<close> is \<open>Error::success()\<close>) and leaves the engine in
  the state it reached.
\<close>

definition run :: "Graph \<Rightarrow> IValue list \<Rightarrow> Engine \<Rightarrow> error option \<times> Engine" where
  "run graph inputs eng =
     (if \<not> (length inputs = length (g_inputs graph)) then (Some ArityMismatch, eng)
      else
        (case getGraphIntputShape (g_inputs graph) inputs (shapeMap eng) of
           (Some e, m) \<Rightarrow> (Some e, eng\<lparr>shapeMap := m\<rparr>)
         | (None, m) \<Rightarrow>
             (case run_nodes m (g_nodes graph) of
                (Some e, m') \<Rightarrow> (Some e, eng\<lparr>shapeMap := m'\<rparr>)
              | (None, m') \<Rightarrow>
                  (case generateGraphOutputShape m' (g_outputs graph) (outputShape eng) of
                     (err, outs) \<Rightarrow> (err, eng\<lparr>shapeMap := m', outputShape := outs\<rparr>)))))"

section \<open>Verified properties\<close>

subsection \<open>Matrix product\<close>

text \<open>
  Claim C6. \<open>mm\<close> fails with \<open>ArityMismatch\<close> unless it gets exactly two inputs, with
  \<open>RankMismatch\<close> unless both shapes have rank 2, with \<open>ShapeMismatch\<close> unless the
  second size of the first shape equals the first size of the second shape, and
  otherwise returns the first size of the first shape followed by the second size of
  the second. So \<open>[2,3]\<close> times \<open>[3,4]\<close> is \<open>[2,4]\<close> and \<open>[2,3]\<close> times \<open>[4,5]\<close> is a
  \<open>ShapeMismatch\<close>.
\<close>

theorem mm_rule:
  "(length ms \<noteq> 2 \<longrightarrow> mm ms = Inl ArityMismatch) \<and>
   (length ms = 2 \<and> \<not> (length (shape (ms ! 0)) = 2 \<and> length (shape (ms ! 1)) = 2)
      \<longrightarrow> mm ms = Inl RankMismatch) \<and>
   (length ms = 2 \<and> length (shape (ms ! 0)) = 2 \<and> length (shape (ms ! 1)) = 2 \<and>
    shape (ms ! 0) ! 1 \<noteq> shape (ms ! 1) ! 0
      \<longrightarrow> mm ms = Inl ShapeMismatch) \<and>
   (length ms = 2 \<and> length (shape (ms ! 0)) = 2 \<and> length (shape (ms ! 1)) = 2 \<and>
    shape (ms ! 0) ! 1 = shape (ms ! 1) ! 0
      \<longrightarrow> mm ms = Inr [shape (ms ! 0) ! 0, shape (ms ! 1) ! 1]) \<and>
   mm [\<lparr>shape = [2, 3], intValue = []\<rparr>, \<lparr>shape = [3, 4], intValue = []\<rparr>] = Inr [2, 4] \<and>
   mm [\<lparr>shape = [2, 3], intValue = []\<rparr>, \<lparr>shape = [4, 5], intValue = []\<rparr>] = Inl ShapeMismatch"
  by (simp add: mm_def Let_def)

theorem mm_rule_witness:
  "mm [\<lparr>shape = [7, 3], intValue = []\<rparr>, \<lparr>shape = [3, 9], intValue = []\<rparr>] = Inr [7, 9] \<and>
   mm [\<lparr>shape = [7, 3], intValue = []\<rparr>, \<lparr>shape = [9], intValue = []\<rparr>] = Inl RankMismatch \<and>
   mm [\<lparr>shape = [7, 3], intValue = []\<rparr>] = Inl ArityMismatch \<and>
   mm [\<lparr>shape = [7, 3], intValue = []\<rparr>, \<lparr>shape = [2, 9], intValue = []\<rparr>] = Inl ShapeMismatch"
  using mm_rule [of "[\<lparr>shape = [7, 3], intValue = []\<rparr>, \<lparr>shape = [3, 9], intValue = []\<rparr>]"]
    mm_rule [of "[\<lparr>shape = [7, 3], intValue = []\<rparr>, \<lparr>shape = [9], intValue = []\<rparr>]"]
    mm_rule [of "[\<lparr>shape = [7, 3], intValue = []\<rparr>]"]
    mm_rule [of "[\<lparr>shape = [7, 3], intValue = []\<rparr>, \<lparr>shape = [2, 9], intValue = []\<rparr>]"]
  by simp

subsection \<open>Affine matrix product\<close>

text \<open>
  How \<open>addmm\<close> is put together: \<open>ArityMismatch\<close> for fewer than three inputs;
  otherwise \<open>binaryOp\<close> of the first input (the bias) and an effective product, which
  is the second input's shape when the third input's shape has rank 1 and what \<open>mm\<close>
  returns for the second and third inputs otherwise, an error of \<open>mm\<close> being the error
  of \<open>addmm\<close>.
\<close>

lemma addmm_composition:
  "(length ms < 3 \<longrightarrow> addmm ms = Inl ArityMismatch) \<and>
   (length ms \<ge> 3 \<and> length (shape (ms ! 2)) = 1
      \<longrightarrow> addmm ms = binaryOp [ms ! 0, \<lparr>shape = shape (ms ! 1), intValue = []\<rparr>]) \<and>
   (length ms \<ge> 3 \<and> length (shape (ms ! 2)) \<noteq> 1 \<and> mm [ms ! 1, ms ! 2] = Inl e
      \<longrightarrow> addmm ms = Inl e) \<and>
   (length ms \<ge> 3 \<and> length (shape (ms ! 2)) \<noteq> 1 \<and> mm [ms ! 1, ms ! 2] = Inr s
      \<longrightarrow> addmm ms = binaryOp [ms ! 0, \<lparr>shape = s, intValue = []\<rparr>])"
  by (simp add: addmm_def Let_def binaryOp_def)

text \<open>
  Claim C7 says that the result of \<open>addmm\<close> is the effective product broadcast
  against the bias by the binary elementwise rule. For the bias \<open>[1, 2, 4]\<close> and the
  matrices \<open>[2, 3]\<close> and \<open>[3, 4]\<close> the product is \<open>[2, 4]\<close> and its broadcast against
  the bias is \<open>[1, 2, 4]\<close>. The source does not get there: \<open>addmm\<close> hands the bias and
  the product to \<open>binaryOp\<close>, whose loop finds size 1 at the leading dimension of the
  bias and reads \<open>t1[d1 + j]\<close> with \<open>d1 + j\<close> below zero, outside the product's shape.
\<close>

theorem addmm_reads_out_of_bounds:
  "mm [\<lparr>shape = [2, 3], intValue = []\<rparr>, \<lparr>shape = [3, 4], intValue = []\<rparr>] = Inr [2, 4] \<and>
   addmm [\<lparr>shape = [1, 2, 4], intValue = []\<rparr>, \<lparr>shape = [2, 3], intValue = []\<rparr>,
          \<lparr>shape = [3, 4], intValue = []\<rparr>] = Inl UndefinedBehaviour"
proof -
  have a: "mm [\<lparr>shape = [2, 3], intValue = []\<rparr>, \<lparr>shape = [3, 4], intValue = []\<rparr>] = Inr [2, 4]"
    by (simp add: mm_def)
  have b: "addmm [\<lparr>shape = [1, 2, 4], intValue = []\<rparr>, \<lparr>shape = [2, 3], intValue = []\<rparr>,
                  \<lparr>shape = [3, 4], intValue = []\<rparr>] = Inl UndefinedBehaviour"
    by code_simp
  from a b show ?thesis by (rule conjI)
qed

subsection \<open>Input materializer\<close>

lemma getGraphIntputShape_other_key:
  "k \<notin> set gIns \<Longrightarrow> snd (getGraphIntputShape gIns inputs m) k = m k"
proof (induction gIns arbitrary: inputs m)
  case Nil
  then show ?case by (cases inputs) simp_all
next
  case (Cons g gIns)
  show ?case
  proof (cases inputs)
    case Nil
    then show ?thesis by simp
  next
    case (Cons input rest)
    with Cons.prems Cons.IH show ?thesis
      by (cases input) (simp_all add: Let_def)
  qed
qed

lemma getGraphIntputShape_unsupported:
  "length gIns = length inputs \<Longrightarrow> IVOther \<in> set inputs \<Longrightarrow>
   fst (getGraphIntputShape gIns inputs m) = Some UnsupportedInputKind"
proof (induction gIns inputs arbitrary: m rule: list_induct2)
  case Nil
  then show ?case by simp
next
  case (Cons g gIns input rest)
  then show ?case by (cases input) (auto simp add: Let_def)
qed

lemma getGraphIntputShape_supported:
  "length gIns = length inputs \<Longrightarrow> IVOther \<notin> set inputs \<Longrightarrow>
   fst (getGraphIntputShape gIns inputs m) = None"
proof (induction gIns inputs arbitrary: m rule: list_induct2)
  case Nil
  then show ?case by simp
next
  case (Cons g gIns input rest)
  then show ?case by (cases input) (auto simp add: Let_def)
qed

lemma getGraphIntputShape_entry:
  "length gIns = length inputs \<Longrightarrow> distinct gIns \<Longrightarrow> IVOther \<notin> set inputs \<Longrightarrow>
   i < length gIns \<Longrightarrow>
   snd (getGraphIntputShape gIns inputs m) (gIns ! i) =
     Some (case inputs ! i of
             IVTensor sizes \<Rightarrow> \<lparr>shape = sizes, intValue = []\<rparr>
           | IVBool b \<Rightarrow> \<lparr>shape = [1], intValue = [if b then 1 else 0]\<rparr>
           | IVInt n \<Rightarrow> \<lparr>shape = [1], intValue = [n]\<rparr>
           | IVIntList l \<Rightarrow> \<lparr>shape = [of_nat (length l), 1], intValue = l\<rparr>
           | IVOther \<Rightarrow> \<lparr>shape = [], intValue = []\<rparr>)"
proof (induction gIns inputs arbitrary: m i rule: list_induct2)
  case Nil
  then show ?case by simp
next
  case (Cons g gIns input rest)
  show ?case
  proof (cases i)
    case 0
    with Cons.prems show ?thesis
      by (cases input) (simp_all add: Let_def getGraphIntputShape_other_key)
  next
    case (Suc i')
    with Cons.prems Cons.IH [of i'] show ?thesis
      by (cases input) (simp_all add: Let_def)
  qed
qed

text \<open>
  Claim C8. With as many instances as graph inputs, pairwise distinct graph inputs and
  only supported instances, \<open>getGraphIntputShape\<close> succeeds and stores for the i-th
  graph input: for a tensor its sizes as the shape and no values; for a boolean or an
  integer the shape \<open>[1]\<close> and the value as the only element; for an integer list of
  length N the shape \<open>[N, 1]\<close> and the list as the values. An instance of any other
  category makes \<open>getGraphIntputShape\<close>, and with it \<open>run\<close>, fail with
  \<open>UnsupportedInputKind\<close>.
\<close>

theorem getGraphIntputShape_rule:
  assumes "length inputs = length (g_inputs graph)" and "distinct (g_inputs graph)"
    and "i < length inputs"
  shows "(IVOther \<notin> set inputs \<longrightarrow>
            fst (getGraphIntputShape (g_inputs graph) inputs m) = None \<and>
            (\<forall>sizes. inputs ! i = IVTensor sizes \<longrightarrow>
               snd (getGraphIntputShape (g_inputs graph) inputs m) (g_inputs graph ! i) =
                 Some \<lparr>shape = sizes, intValue = []\<rparr>) \<and>
            (\<forall>b. inputs ! i = IVBool b \<longrightarrow>
               snd (getGraphIntputShape (g_inputs graph) inputs m) (g_inputs graph ! i) =
                 Some \<lparr>shape = [1], intValue = [if b then 1 else 0]\<rparr>) \<and>
            (\<forall>n. inputs ! i = IVInt n \<longrightarrow>
               snd (getGraphIntputShape (g_inputs graph) inputs m) (g_inputs graph ! i) =
                 Some \<lparr>shape = [1], intValue = [n]\<rparr>) \<and>
            (\<forall>l. inputs ! i = IVIntList l \<longrightarrow>
               snd (getGraphIntputShape (g_inputs graph) inputs m) (g_inputs graph ! i) =
                 Some \<lparr>shape = [of_nat (length l), 1], intValue = l\<rparr>)) \<and>
         (inputs ! i = IVOther \<longrightarrow>
            fst (getGraphIntputShape (g_inputs graph) inputs m) = Some UnsupportedInputKind \<and>
            fst (run graph inputs eng) = Some UnsupportedInputKind)"
proof (intro conjI impI)
  assume "IVOther \<notin> set inputs"
  with assms show "fst (getGraphIntputShape (g_inputs graph) inputs m) = None"
    by (simp add: getGraphIntputShape_supported)
next
  assume ok: "IVOther \<notin> set inputs"
  have e: "snd (getGraphIntputShape (g_inputs graph) inputs m) (g_inputs graph ! i) =
     Some (case inputs ! i of
             IVTensor sizes \<Rightarrow> \<lparr>shape = sizes, intValue = []\<rparr>
           | IVBool b \<Rightarrow> \<lparr>shape = [1], intValue = [if b then 1 else 0]\<rparr>
           | IVInt n \<Rightarrow> \<lparr>shape = [1], intValue = [n]\<rparr>
           | IVIntList l \<Rightarrow> \<lparr>shape = [of_nat (length l), 1], intValue = l\<rparr>
           | IVOther \<Rightarrow> \<lparr>shape = [], intValue = []\<rparr>)"
    using assms ok by (intro getGraphIntputShape_entry) simp_all
  show "\<forall>sizes. inputs ! i = IVTensor sizes \<longrightarrow>
          snd (getGraphIntputShape (g_inputs graph) inputs m) (g_inputs graph ! i) =
            Some \<lparr>shape = sizes, intValue = []\<rparr>"
    using e by simp
  show "\<forall>b. inputs ! i = IVBool b \<longrightarrow>
          snd (getGraphIntputShape (g_inputs graph) inputs m) (g_inputs graph ! i) =
            Some \<lparr>shape = [1], intValue = [if b then 1 else 0]\<rparr>"
    using e by simp
  show "\<forall>n. inputs ! i = IVInt n \<longrightarrow>
          snd (getGraphIntputShape (g_inputs graph) inputs m) (g_inputs graph ! i) =
            Some \<lparr>shape = [1], intValue = [n]\<rparr>"
    using e by simp
  show "\<forall>l. inputs ! i = IVIntList l \<longrightarrow>
          snd (getGraphIntputShape (g_inputs graph) inputs m) (g_inputs graph ! i) =
            Some \<lparr>shape = [of_nat (length l), 1], intValue = l\<rparr>"
    using e by simp
next
  assume o: "inputs ! i = IVOther"
  with assms(3) have mem: "IVOther \<in> set inputs"
    by (metis nth_mem)
  with assms(1) show "fst (getGraphIntputShape (g_inputs graph) inputs m) = Some UnsupportedInputKind"
    by (simp add: getGraphIntputShape_unsupported)
  from assms(1) mem
  have "fst (getGraphIntputShape (g_inputs graph) inputs (shapeMap eng)) = Some UnsupportedInputKind"
    by (simp add: getGraphIntputShape_unsupported)
  with assms(1) show "fst (run graph inputs eng) = Some UnsupportedInputKind"
    by (cases "getGraphIntputShape (g_inputs graph) inputs (shapeMap eng)") (simp add: run_def)
qed

theorem getGraphIntputShape_rule_witness:
  "snd (getGraphIntputShape [0, 1, 2, 3]
          [IVTensor [2, 3], IVBool True, IVInt 7, IVIntList [4, 5, 6]] Map.empty) 3 =
     Some \<lparr>shape = [3, 1], intValue = [4, 5, 6]\<rparr> \<and>
   snd (getGraphIntputShape [0, 1, 2, 3]
          [IVTensor [2, 3], IVBool True, IVInt 7, IVIntList [4, 5, 6]] Map.empty) 1 =
     Some \<lparr>shape = [1], intValue = [1]\<rparr> \<and>
   fst (run \<lparr>g_inputs = [0, 1], g_nodes = [], g_outputs = []\<rparr> [IVTensor [2, 3], IVOther]
          \<lparr>shapeMap = Map.empty, outputShape = []\<rparr>) = Some UnsupportedInputKind"
proof -
  let ?g = "\<lparr>g_inputs = [0, 1, 2, 3], g_nodes = [], g_outputs = []\<rparr>"
  let ?ins = "[IVTensor [2, 3], IVBool True, IVInt 7, IVIntList [4, 5, 6]]"
  have a: "length ?ins = length (g_inputs ?g)" by simp
  have b: "distinct (g_inputs ?g)" by simp
  have c: "IVOther \<notin> set ?ins" by simp
  note r3 = getGraphIntputShape_rule [OF a b, of 3 Map.empty]
  note r1 = getGraphIntputShape_rule [OF a b, of 1 Map.empty]
  let ?h = "\<lparr>g_inputs = [0, 1], g_nodes = [], g_outputs = []\<rparr>"
  let ?jns = "[IVTensor [2, 3], IVOther]"
  have a': "length ?jns = length (g_inputs ?h)" by simp
  have b': "distinct (g_inputs ?h)" by simp
  note r2 = getGraphIntputShape_rule [OF a' b', of 1 Map.empty "\<lparr>shapeMap = Map.empty, outputShape = []\<rparr>"]
  from r3 r1 r2 show ?thesis by simp
qed

subsection \<open>Driver\<close>

lemma run_nodes_stops:
  "run_nodes m pre = (None, m') \<Longrightarrow> shapeOnNode m' node = Inl e \<Longrightarrow>
   run_nodes m (pre @ node # post) = (Some e, m')"
proof (induction pre arbitrary: m)
  case Nil
  then show ?case by simp
next
  case (Cons n pre)
  then show ?case by (cases "shapeOnNode m n") simp_all
qed

text \<open>
  Claim C9. \<open>run\<close> fails with \<open>ArityMismatch\<close> when the number of instances differs
  from the number of graph inputs, and then leaves the engine as it was: nothing has
  been materialized. An error of \<open>getGraphIntputShape\<close> is returned by \<open>run\<close>. When the
  nodes before some node succeed and \<open>shapeOnNode\<close> fails on that node, \<open>run\<close> returns
  that error; the store is the one reached before the failing node, so no later node
  has written to it, and \<open>outputShape\<close> is untouched.
\<close>

theorem run_rule:
  "(length inputs \<noteq> length (g_inputs graph) \<longrightarrow>
      run graph inputs eng = (Some ArityMismatch, eng)) \<and>
   (length inputs = length (g_inputs graph) \<and>
    getGraphIntputShape (g_inputs graph) inputs (shapeMap eng) = (Some e, m)
      \<longrightarrow> run graph inputs eng = (Some e, eng\<lparr>shapeMap := m\<rparr>)) \<and>
   (length inputs = length (g_inputs graph) \<and>
    getGraphIntputShape (g_inputs graph) inputs (shapeMap eng) = (None, m) \<and>
    g_nodes graph = pre @ node # post \<and>
    run_nodes m pre = (None, m') \<and> shapeOnNode m' node = Inl e
      \<longrightarrow> run graph inputs eng = (Some e, eng\<lparr>shapeMap := m'\<rparr>))"
  by (simp add: run_def run_nodes_stops)


theorem run_rule_witness:
  "run \<lparr>g_inputs = [0],
        g_nodes =
          [\<lparr>n_kind = Constant, n_inputs = [], n_outputs = [1], n_type = IntType,
            attr_value = 2, attr_tensor = [], attr_chunks = 0, attr_dim = 0\<rparr>,
           \<lparr>n_kind = Mm, n_inputs = [0, 1], n_outputs = [2], n_type = TensorType,
            attr_value = 0, attr_tensor = [], attr_chunks = 0, attr_dim = 0\<rparr>,
           \<lparr>n_kind = Tanh, n_inputs = [0], n_outputs = [3], n_type = TensorType,
            attr_value = 0, attr_tensor = [], attr_chunks = 0, attr_dim = 0\<rparr>],
        g_outputs = [3]\<rparr>
       [IVTensor [1, 3]] \<lparr>shapeMap = Map.empty, outputShape = []\<rparr> =
     (Some RankMismatch,
      \<lparr>shapeMap = [0 \<mapsto> \<lparr>shape = [1, 3], intValue = []\<rparr>, 1 \<mapsto> \<lparr>shape = [1], intValue = [2]\<rparr>],
       outputShape = []\<rparr>) \<and>
   run \<lparr>g_inputs = [0], g_nodes = [], g_outputs = [0]\<rparr> []
       \<lparr>shapeMap = Map.empty, outputShape = []\<rparr> =
     (Some ArityMismatch, \<lparr>shapeMap = Map.empty, outputShape = []\<rparr>) \<and>
   run \<lparr>g_inputs = [0, 1], g_nodes = [], g_outputs = [0]\<rparr> [IVInt 4, IVOther]
       \<lparr>shapeMap = Map.empty, outputShape = []\<rparr> =
     (Some UnsupportedInputKind,
      \<lparr>shapeMap = [0 \<mapsto> \<lparr>shape = [1], intValue = [4]\<rparr>, 1 \<mapsto> \<lparr>shape = [], intValue = []\<rparr>],
       outputShape = []\<rparr>)"
proof -
  let ?c = "\<lparr>n_kind = Constant, n_inputs = [], n_outputs = [1], n_type = IntType,
            attr_value = 2, attr_tensor = [], attr_chunks = 0, attr_dim = 0\<rparr>"
  let ?mm = "\<lparr>n_kind = Mm, n_inputs = [0, 1], n_outputs = [2], n_type = TensorType,
            attr_value = 0, attr_tensor = [], attr_chunks = 0, attr_dim = 0\<rparr>"
  let ?t = "\<lparr>n_kind = Tanh, n_inputs = [0], n_outputs = [3], n_type = TensorType,
            attr_value = 0, attr_tensor = [], attr_chunks = 0, attr_dim = 0\<rparr>"
  let ?g = "\<lparr>g_inputs = [0], g_nodes = [?c, ?mm, ?t], g_outputs = [3]\<rparr>"
  let ?eng = "\<lparr>shapeMap = Map.empty, outputShape = []\<rparr>"
  let ?m = "[0 \<mapsto> \<lparr>shape = [1, 3], intValue = []\<rparr>] :: ShapeMap"
  let ?m' = "[0 \<mapsto> \<lparr>shape = [1, 3], intValue = []\<rparr>, 1 \<mapsto> \<lparr>shape = [1], intValue = [2]\<rparr>] :: ShapeMap"
  have 1: "length [IVTensor [1, 3]] = length (g_inputs ?g)" by simp
  have 2: "getGraphIntputShape (g_inputs ?g) [IVTensor [1, 3]] (shapeMap ?eng) = (None, ?m)"
    by simp
  have 3: "g_nodes ?g = [?c] @ ?mm # [?t]" by simp
  have 4: "run_nodes ?m [?c] = (None, ?m')"
    by (simp add: shapeOnNode_def opRule_def primConstant_def set_shape_def set_intValue_def)
  have 5: "shapeOnNode ?m' ?mm = Inl RankMismatch"
    by (simp add: shapeOnNode_def opRule_def mm_def)
  let ?h = "\<lparr>g_inputs = [0, 1], g_nodes = [], g_outputs = [0]\<rparr>"
  have 6: "length [IVInt 4, IVOther] = length (g_inputs ?h)" by simp
  have 7: "getGraphIntputShape (g_inputs ?h) [IVInt 4, IVOther] (shapeMap ?eng) =
     (Some UnsupportedInputKind,
      [0 \<mapsto> \<lparr>shape = [1], intValue = [4]\<rparr>, 1 \<mapsto> \<lparr>shape = [], intValue = []\<rparr>])"
    by simp
  from run_rule [of "[IVTensor [1, 3]]" ?g ?eng RankMismatch ?m "[?c]" ?mm "[?t]" ?m']
    1 2 3 4 5
  have a: "run ?g [IVTensor [1, 3]] ?eng = (Some RankMismatch, ?eng\<lparr>shapeMap := ?m'\<rparr>)"
    by blast
  from run_rule [of "[]" "\<lparr>g_inputs = [0], g_nodes = [], g_outputs = [0]\<rparr>" ?eng]
  have b: "run \<lparr>g_inputs = [0], g_nodes = [], g_outputs = [0]\<rparr> [] ?eng = (Some ArityMismatch, ?eng)"
    by simp
  from run_rule [of "[IVInt 4, IVOther]" ?h ?eng UnsupportedInputKind
      "[0 \<mapsto> \<lparr>shape = [1], intValue = [4]\<rparr>, 1 \<mapsto> \<lparr>shape = [], intValue = []\<rparr>]"] 6 7
  have c: "run ?h [IVInt 4, IVOther] ?eng =
     (Some UnsupportedInputKind,
      ?eng\<lparr>shapeMap := [0 \<mapsto> \<lparr>shape = [1], intValue = [4]\<rparr>, 1 \<mapsto> \<lparr>shape = [], intValue = []\<rparr>]\<rparr>)"
    by blast
  from a b c show ?thesis by simp
qed

subsection \<open>Constant split\<close>

lemma constantChunk_loop_eq:
  "constantChunk_loop sh d chunks c r i acc =
     acc @ map (\<lambda>j. sh[d := (if int j = sint (chunks - 1) then r else c)]) [i..<nat (sint chunks)]"
proof (induction sh d chunks c r i acc rule: constantChunk_loop.induct)
  case (1 sh d chunks c r i outShapes)
  show ?case
  proof (cases "int i < sint chunks")
    case True
    then have "i < nat (sint chunks)" by simp
    then have "[i..<nat (sint chunks)] = i # [Suc i..<nat (sint chunks)]"
      by (simp add: upt_conv_Cons)
    with True 1 show ?thesis
      by (subst constantChunk_loop.simps) simp
  next
    case False
    then show ?thesis
      by (subst constantChunk_loop.simps) simp
  qed
qed

lemma sint_pred:
  fixes chunks :: int64
  assumes "1 \<le> sint chunks"
  shows "sint (chunks - 1) = sint chunks - 1"
proof -
  have "sint chunks < 2 ^ 63" using sint_lt [of chunks] by simp
  with assms show ?thesis
    by (simp add: sint_word_diff signed_take_bit_int_eq_self)
qed

lemma constantChunk_loop_outputs:
  fixes chunks :: int64
  assumes "1 \<le> sint chunks"
  shows "constantChunk_loop sh d chunks c r 0 [] =
           replicate (nat (sint chunks) - 1) (sh[d := c]) @ [sh[d := r]]"
proof -
  define n where "n = nat (sint chunks) - 1"
  have n: "nat (sint chunks) = Suc n" using assms by (simp add: n_def)
  have p: "sint (chunks - 1) = int n" using assms by (simp add: sint_pred n_def)
  have "map (\<lambda>j. sh[d := (if int j = sint (chunks - 1) then r else c)]) [0..<n] =
        map (\<lambda>j. sh[d := c]) [0..<n]"
    by (rule map_cong) (simp_all add: p)
  also have "\<dots> = replicate n (sh[d := c])"
    by (simp add: map_replicate_const)
  finally show ?thesis
    by (simp add: constantChunk_loop_eq n p)
qed


lemma of_int_sint_id: "word_of_int (sint (w :: int64)) = w"
  by simp

lemma ceil_div_int:
  fixes S K :: int
  assumes "0 \<le> S" "1 \<le> K"
  shows "(S + K - 1) sdiv K = \<lceil>real_of_int S / real_of_int K\<rceil>"
proof -
  define C where "C = (S + K - 1) div K"
  define M where "M = (S + K - 1) mod K"
  define P where "P = C * K"
  have a: "(S + K - 1) sdiv K = C"
    using assms by (simp add: signed_divide_int_def sgn_if C_def)
  have m: "0 \<le> M" "M < K"
    using assms by (simp_all add: M_def)
  have e: "P + M = S + K - 1"
    by (simp add: P_def C_def M_def)
  have i1: "S \<le> P" using m e by linarith
  have i2: "P - K < S" using m e by linarith
  have k: "0 < real_of_int K" using assms by simp
  have "real_of_int S \<le> real_of_int C * real_of_int K"
    using i1 unfolding P_def by (metis of_int_le_iff of_int_mult)
  then have u: "real_of_int S / real_of_int K \<le> real_of_int C"
    using k by (simp add: pos_divide_le_eq)
  have "(C - 1) * K < S" using i2 by (simp add: P_def algebra_simps)
  then have "real_of_int (C - 1) * real_of_int K < real_of_int S"
    by (metis of_int_less_iff of_int_mult)
  then have l: "real_of_int C - 1 < real_of_int S / real_of_int K"
    using k by (simp add: pos_less_divide_eq)
  from l u have "\<lceil>real_of_int S / real_of_int K\<rceil> = C"
    by (rule ceiling_unique)
  with a show ?thesis by simp
qed


lemma sint_of_int_range:
  "- (2 ^ 63) \<le> x \<Longrightarrow> x < 2 ^ 63 \<Longrightarrow> sint (word_of_int x :: int64) = x"
  by (simp add: sint_sbintrunc' signed_take_bit_int_eq_self)

lemma chunk_quotient:
  fixes S K :: int
  assumes "0 \<le> S" "1 \<le> K"
  shows "0 \<le> (S + K - 1) sdiv K" and "(S + K - 1) sdiv K * (K - 1) \<le> S + K - 1"
    and "0 \<le> (S + K - 1) sdiv K * (K - 1)" and "(S + K - 1) sdiv K \<le> S + K - 1"
proof -
  define C where "C = (S + K - 1) div K"
  define M where "M = (S + K - 1) mod K"
  have a: "(S + K - 1) sdiv K = C"
    using assms by (simp add: signed_divide_int_def sgn_if C_def)
  have c0: "0 \<le> C"
    using assms by (simp add: C_def pos_imp_zdiv_nonneg_iff)
  have m: "0 \<le> M" using assms by (simp add: M_def)
  have e: "C * K + M = S + K - 1" by (simp add: C_def M_def)
  have "C * (K - 1) = C * K - C" by (simp add: algebra_simps)
  with c0 m e have le: "C * (K - 1) \<le> S + K - 1" by linarith
  have ge: "0 \<le> C * (K - 1)" using c0 assms by simp
  have "C * 1 \<le> C * K" using c0 assms by (intro mult_left_mono) simp_all
  with m e have cle: "C \<le> S + K - 1" by linarith
  show "0 \<le> (S + K - 1) sdiv K" using a c0 by simp
  show "(S + K - 1) sdiv K * (K - 1) \<le> S + K - 1" using a le by simp
  show "0 \<le> (S + K - 1) sdiv K * (K - 1)" using a ge by simp
  show "(S + K - 1) sdiv K \<le> S + K - 1" using a cle by simp
qed

lemma chunk_sizes:
  fixes s chunks :: int64
  assumes "0 \<le> sint s" "1 \<le> sint chunks" "sint s + sint chunks < 2 ^ 63"
  shows "sint (word_of_int (sint (s + chunks - 1) sdiv sint chunks) :: int64) =
           \<lceil>real_of_int (sint s) / real_of_int (sint chunks)\<rceil>"
    and "sint (s - word_of_int (sint (s + chunks - 1) sdiv sint chunks) * (chunks - 1)) =
           sint s - \<lceil>real_of_int (sint s) / real_of_int (sint chunks)\<rceil> * (sint chunks - 1)"
proof -
  define S where "S = sint s"
  define K where "K = sint chunks"
  define C where "C = (S + K - 1) sdiv K"
  have sK: "0 \<le> S" "1 \<le> K" "S + K < 2 ^ 63"
    using assms by (simp_all add: S_def K_def)
  have w: "s + chunks - 1 = word_of_int (S + K - 1)"
    by (simp add: S_def K_def)
  have num: "sint (s + chunks - 1) = S + K - 1"
    unfolding w using sK by (intro sint_of_int_range) linarith+
  have q: "0 \<le> C" "C * (K - 1) \<le> S + K - 1" "0 \<le> C * (K - 1)" "C \<le> S + K - 1"
    unfolding C_def using chunk_quotient [OF sK(1) sK(2)] by simp_all
  have ceil: "C = \<lceil>real_of_int S / real_of_int K\<rceil>"
    unfolding C_def using sK by (simp add: ceil_div_int)
  have c: "sint (word_of_int C :: int64) = C"
    using q sK by (intro sint_of_int_range) linarith+
  have w': "s - word_of_int C * (chunks - 1) = word_of_int (S - C * (K - 1))"
    by (simp add: S_def K_def)
  have r: "sint (s - word_of_int C * (chunks - 1)) = S - C * (K - 1)"
    unfolding w' using q sK by (intro sint_of_int_range) linarith+
  show "sint (word_of_int (sint (s + chunks - 1) sdiv sint chunks) :: int64) =
           \<lceil>real_of_int (sint s) / real_of_int (sint chunks)\<rceil>"
    using c ceil num by (simp add: C_def S_def K_def)
  show "sint (s - word_of_int (sint (s + chunks - 1) sdiv sint chunks) * (chunks - 1)) =
           sint s - \<lceil>real_of_int (sint s) / real_of_int (sint chunks)\<rceil> * (sint chunks - 1)"
    using r ceil num by (simp add: C_def S_def K_def)
qed


lemma constantChunk_Inr:
  assumes "length ms = 1"
    and "d = (if sint dimv < 0 then sint dimv + int (length (shape (ms ! 0))) else sint dimv)"
    and "0 \<le> d" "d < int (length (shape (ms ! 0)))" "1 \<le> sint chunks"
  shows "constantChunk ms chunks dimv =
           Inr (replicate (nat (sint chunks) - 1)
                  ((shape (ms ! 0))[nat d :=
                     word_of_int (sint (shape (ms ! 0) ! nat d + chunks - 1) sdiv sint chunks)]) @
                [(shape (ms ! 0))[nat d :=
                   shape (ms ! 0) ! nat d -
                   word_of_int (sint (shape (ms ! 0) ! nat d + chunks - 1) sdiv sint chunks) *
                   (chunks - 1)]])"
proof -
  have z: "chunks \<noteq> 0" using assms(5) by auto
  have m: "chunks \<noteq> - 1" using assms(5) by auto
  show ?thesis
    using assms z m
    by (simp add: constantChunk_def Let_def constantChunk_loop_outputs)
qed

lemma word_of_chunks_pred:
  fixes chunks :: int64
  assumes "1 \<le> sint chunks"
  shows "word_of_nat (nat (sint chunks) - 1) = chunks - 1"
proof -
  have "nat (sint chunks) - 1 = nat (sint chunks - 1)" by simp
  moreover have "(word_of_nat (nat (sint chunks - 1)) :: int64) = word_of_int (sint chunks - 1)"
    using assms by (simp add: of_nat_nat)
  ultimately show ?thesis by simp
qed

lemma sum_at_chunks:
  fixes c r :: int64
  assumes "k < length sh"
  shows "sum_list (map (\<lambda>out. out ! k) (replicate n (sh[k := c]) @ [sh[k := r]])) =
           word_of_nat n * c + r"
  using assms by (simp add: sum_list_replicate)

lemma sum_sint_at_chunks:
  fixes c r :: int64
  assumes "k < length sh"
  shows "(\<Sum>out\<leftarrow>replicate n (sh[k := c]) @ [sh[k := r]]. sint (out ! k)) =
           int n * sint c + sint r"
  using assms by (simp add: sum_list_replicate)


text \<open>
  Claim C4. For one input, the dimension is the attribute \<open>dim\<close>, with the rank added
  when it is negative; outside \<open>[0, rank)\<close> the rule fails with \<open>DimOutOfRange\<close>. For a
  valid dimension and \<open>chunks \<ge> 1\<close> the rule returns exactly \<open>chunks\<close> shapes, each
  the input shape with a new size at the split dimension: \<open>c\<close> in all but the last and
  \<open>r\<close> in the last. When the size \<open>s\<close> at the split dimension is not negative and
  \<open>s + chunks\<close> stays inside \<open>int64_t\<close>, \<open>c\<close> is the ceiling of \<open>s / chunks\<close> and \<open>r\<close> is
  \<open>s - c * (chunks - 1)\<close>. Splitting \<open>[10, 8]\<close> at dimension 0 into 3 gives
  \<open>[4,8]\<close>, \<open>[4,8]\<close>, \<open>[2,8]\<close>.
\<close>

theorem constantChunk_rule:
  assumes "length ms = 1"
    and "d = (if sint dimv < 0 then sint dimv + int (length (shape (ms ! 0))) else sint dimv)"
  shows "(\<not> (0 \<le> d \<and> d < int (length (shape (ms ! 0))))
            \<longrightarrow> constantChunk ms chunks dimv = Inl DimOutOfRange) \<and>
         (0 \<le> d \<and> d < int (length (shape (ms ! 0))) \<and> 1 \<le> sint chunks
            \<longrightarrow> (\<exists>c r.
                  constantChunk ms chunks dimv =
                    Inr (replicate (nat (sint chunks) - 1) ((shape (ms ! 0))[nat d := c]) @
                         [(shape (ms ! 0))[nat d := r]]) \<and>
                  length (replicate (nat (sint chunks) - 1) ((shape (ms ! 0))[nat d := c]) @
                          [(shape (ms ! 0))[nat d := r]]) = nat (sint chunks) \<and>
                  (0 \<le> sint (shape (ms ! 0) ! nat d) \<and>
                   sint (shape (ms ! 0) ! nat d) + sint chunks < 2 ^ 63
                     \<longrightarrow> sint c =
                           \<lceil>real_of_int (sint (shape (ms ! 0) ! nat d)) / real_of_int (sint chunks)\<rceil> \<and>
                         sint r =
                           sint (shape (ms ! 0) ! nat d) -
                           \<lceil>real_of_int (sint (shape (ms ! 0) ! nat d)) / real_of_int (sint chunks)\<rceil> *
                           (sint chunks - 1)))) \<and>
         constantChunk [\<lparr>shape = [10, 8], intValue = []\<rparr>] 3 0 = Inr [[4, 8], [4, 8], [2, 8]]"
proof (intro conjI impI)
  assume "\<not> (0 \<le> d \<and> d < int (length (shape (ms ! 0))))"
  with assms show "constantChunk ms chunks dimv = Inl DimOutOfRange"
    by (auto simp add: constantChunk_def Let_def)
next
  assume v: "0 \<le> d \<and> d < int (length (shape (ms ! 0))) \<and> 1 \<le> sint chunks"
  let ?s = "shape (ms ! 0) ! nat d"
  let ?c = "word_of_int (sint (?s + chunks - 1) sdiv sint chunks) :: int64"
  let ?r = "?s - ?c * (chunks - 1)"
  have res: "constantChunk ms chunks dimv =
               Inr (replicate (nat (sint chunks) - 1) ((shape (ms ! 0))[nat d := ?c]) @
                    [(shape (ms ! 0))[nat d := ?r]])"
    using assms v by (intro constantChunk_Inr) simp_all
  have len: "length (replicate (nat (sint chunks) - 1) ((shape (ms ! 0))[nat d := ?c]) @
                     [(shape (ms ! 0))[nat d := ?r]]) = nat (sint chunks)"
    using v by simp
  have sz: "0 \<le> sint ?s \<and> sint ?s + sint chunks < 2 ^ 63
              \<longrightarrow> sint ?c = \<lceil>real_of_int (sint ?s) / real_of_int (sint chunks)\<rceil> \<and>
                  sint ?r = sint ?s - \<lceil>real_of_int (sint ?s) / real_of_int (sint chunks)\<rceil> *
                            (sint chunks - 1)"
    using v chunk_sizes [of ?s chunks] by blast
  from res len sz
  show "\<exists>c r.
          constantChunk ms chunks dimv =
            Inr (replicate (nat (sint chunks) - 1) ((shape (ms ! 0))[nat d := c]) @
                 [(shape (ms ! 0))[nat d := r]]) \<and>
          length (replicate (nat (sint chunks) - 1) ((shape (ms ! 0))[nat d := c]) @
                  [(shape (ms ! 0))[nat d := r]]) = nat (sint chunks) \<and>
          (0 \<le> sint (shape (ms ! 0) ! nat d) \<and>
           sint (shape (ms ! 0) ! nat d) + sint chunks < 2 ^ 63
             \<longrightarrow> sint c =
                   \<lceil>real_of_int (sint (shape (ms ! 0) ! nat d)) / real_of_int (sint chunks)\<rceil> \<and>
                 sint r =
                   sint (shape (ms ! 0) ! nat d) -
                   \<lceil>real_of_int (sint (shape (ms ! 0) ! nat d)) / real_of_int (sint chunks)\<rceil> *
                   (sint chunks - 1))"
    by blast
next
  show "constantChunk [\<lparr>shape = [10, 8], intValue = []\<rparr>] 3 0 = Inr [[4, 8], [4, 8], [2, 8]]"
    by code_simp
qed

theorem constantChunk_rule_witness:
  "constantChunk [\<lparr>shape = [5, 7], intValue = []\<rparr>] 2 (- 1) = Inr [[5, 4], [5, 3]] \<and>
   constantChunk [\<lparr>shape = [5, 7], intValue = []\<rparr>] 2 2 = Inl DimOutOfRange"
proof -
  let ?ms = "[\<lparr>shape = [5, 7], intValue = []\<rparr>]"
  have l: "length ?ms = 1" by simp
  have d1: "(1::int) = (if sint (- 1 :: int64) < 0
              then sint (- 1 :: int64) + int (length (shape (?ms ! 0))) else sint (- 1 :: int64))"
    by simp
  have d2: "(2::int) = (if sint (2 :: int64) < 0
              then sint (2 :: int64) + int (length (shape (?ms ! 0))) else sint (2 :: int64))"
    by simp
  from constantChunk_rule [OF l d1, of 2]
  obtain c r :: int64 where
    res: "constantChunk ?ms 2 (- 1) = Inr (replicate (nat (sint (2::int64)) - 1) ([5, 7][nat 1 := c]) @ [[5, 7][nat 1 := r]])"
    and c: "sint c = \<lceil>real_of_int (sint (7::int64)) / real_of_int (sint (2::int64))\<rceil>"
    and r: "sint r = sint (7::int64) - \<lceil>real_of_int (sint (7::int64)) / real_of_int (sint (2::int64))\<rceil> * (sint (2::int64) - 1)"
    by auto
  have "c = word_of_int (sint c)" by simp
  also have "\<dots> = 4" unfolding c by simp
  finally have c4: "c = 4" .
  have "r = word_of_int (sint r)" by simp
  also have "\<dots> = 3" unfolding r by simp
  finally have r3: "r = 3" .
  have a: "constantChunk ?ms 2 (- 1) = Inr [[5, 4], [5, 3]]"
    using res by (simp add: c4 r3)
  from constantChunk_rule [OF l d2, of 2]
  have b: "constantChunk ?ms 2 2 = Inl DimOutOfRange" by simp
  from a b show ?thesis by simp
qed

text \<open>
  Claim C10. For one input, a valid split dimension and \<open>chunks \<ge> 1\<close>, the sizes at
  the split dimension of the \<open>chunks\<close> returned shapes add up to the input's size
  there: always in the wrapping arithmetic of \<open>int64_t\<close>, and as integers when the size
  is not negative and \<open>s + chunks\<close> stays inside \<open>int64_t\<close>. The last size may be zero
  or negative.
\<close>

theorem constantChunk_conserves:
  assumes "length ms = 1"
    and "d = (if sint dimv < 0 then sint dimv + int (length (shape (ms ! 0))) else sint dimv)"
    and "0 \<le> d" "d < int (length (shape (ms ! 0)))" "1 \<le> sint chunks"
  shows "\<exists>outs. constantChunk ms chunks dimv = Inr outs \<and>
           length outs = nat (sint chunks) \<and>
           sum_list (map (\<lambda>out. out ! nat d) outs) = shape (ms ! 0) ! nat d \<and>
           (0 \<le> sint (shape (ms ! 0) ! nat d) \<and>
            sint (shape (ms ! 0) ! nat d) + sint chunks < 2 ^ 63
              \<longrightarrow> (\<Sum>out\<leftarrow>outs. sint (out ! nat d)) = sint (shape (ms ! 0) ! nat d))"
proof -
  let ?sh = "shape (ms ! 0)"
  let ?s = "?sh ! nat d"
  let ?c = "word_of_int (sint (?s + chunks - 1) sdiv sint chunks) :: int64"
  let ?r = "?s - ?c * (chunks - 1)"
  let ?n = "nat (sint chunks) - 1"
  let ?outs = "replicate ?n (?sh[nat d := ?c]) @ [?sh[nat d := ?r]]"
  have k: "nat d < length ?sh" using assms(3,4) by simp
  have res: "constantChunk ms chunks dimv = Inr ?outs"
    using assms by (intro constantChunk_Inr) simp_all
  have len: "length ?outs = nat (sint chunks)"
    using assms(5) by simp
  have "sum_list (map (\<lambda>out. out ! nat d) ?outs) = word_of_nat ?n * ?c + ?r"
    using k by (rule sum_at_chunks)
  also have "\<dots> = (chunks - 1) * ?c + ?r"
    using assms(5) by (simp only: word_of_chunks_pred)
  also have "\<dots> = ?s"
    by (simp add: algebra_simps)
  finally have w: "sum_list (map (\<lambda>out. out ! nat d) ?outs) = ?s" .
  have i: "0 \<le> sint ?s \<and> sint ?s + sint chunks < 2 ^ 63
             \<longrightarrow> (\<Sum>out\<leftarrow>?outs. sint (out ! nat d)) = sint ?s"
  proof
    assume h: "0 \<le> sint ?s \<and> sint ?s + sint chunks < 2 ^ 63"
    define C where "C = \<lceil>real_of_int (sint ?s) / real_of_int (sint chunks)\<rceil>"
    have c: "sint ?c = C" and r: "sint ?r = sint ?s - C * (sint chunks - 1)"
      unfolding C_def using h assms(5) chunk_sizes [of ?s chunks] by blast+
    have n: "int ?n = sint chunks - 1" using assms(5) by simp
    have "(\<Sum>out\<leftarrow>?outs. sint (out ! nat d)) = int ?n * sint ?c + sint ?r"
      using k by (rule sum_sint_at_chunks)
    also have "\<dots> = (sint chunks - 1) * C + (sint ?s - C * (sint chunks - 1))"
      by (simp only: n c r)
    also have "\<dots> = sint ?s" by (simp add: algebra_simps)
    finally show "(\<Sum>out\<leftarrow>?outs. sint (out ! nat d)) = sint ?s" .
  qed
  from res len w i show ?thesis by blast
qed


theorem constantChunk_conserves_witness:
  "\<exists>outs. constantChunk [\<lparr>shape = [5], intValue = []\<rparr>] 4 0 = Inr outs \<and>
      length outs = 4 \<and>
      sum_list (map (\<lambda>out. out ! 0) outs) = 5 \<and>
      (\<Sum>out\<leftarrow>outs. sint (out ! 0)) = 5"
proof -
  let ?ms = "[\<lparr>shape = [5], intValue = []\<rparr>]"
  have l: "length ?ms = 1" by simp
  have d: "(0::int) = (if sint (0 :: int64) < 0
              then sint (0 :: int64) + int (length (shape (?ms ! 0))) else sint (0 :: int64))"
    by simp
  have v: "(0::int) \<le> 0" "(0::int) < int (length (shape (?ms ! 0)))" "1 \<le> sint (4 :: int64)"
    by simp_all
  from constantChunk_conserves [OF l d v]
  show ?thesis by simp
qed

subsection \<open>Concatenation\<close>

lemma fusedConcat_inner_eq:
  "length acc = n \<Longrightarrow> length ti = n \<Longrightarrow> d < n \<Longrightarrow>
   fusedConcat_inner acc ti n d j =
     (if \<exists>k. j \<le> k \<and> k < n \<and> k \<noteq> d \<and> acc ! k \<noteq> ti ! k then Inl ShapeMismatch
      else Inr (if j \<le> d then acc[d := acc ! d + ti ! d] else acc))"
proof (induction acc ti n d j rule: fusedConcat_inner.induct)
  case (1 acc ti inDims d j)
  show ?case
  proof (cases "j < inDims")
    case False
    with "1.prems" show ?thesis
      by (subst fusedConcat_inner.simps) auto
  next
    case True
    show ?thesis
    proof (cases "j = d")
      case jd: True
      let ?acc = "acc[d := acc ! d + ti ! d]"
      have step: "fusedConcat_inner acc ti inDims d j = fusedConcat_inner ?acc ti inDims d (Suc j)"
        using True jd by (subst fusedConcat_inner.simps) simp
      have ih: "fusedConcat_inner ?acc ti inDims d (Suc j) =
                  (if \<exists>k. Suc j \<le> k \<and> k < inDims \<and> k \<noteq> d \<and> ?acc ! k \<noteq> ti ! k
                   then Inl ShapeMismatch
                   else Inr (if Suc j \<le> d then ?acc[d := ?acc ! d + ti ! d] else ?acc))"
        using "1.IH"(1) [OF True jd] "1.prems" by simp
      have ex: "(\<exists>k. Suc j \<le> k \<and> k < inDims \<and> k \<noteq> d \<and> ?acc ! k \<noteq> ti ! k) =
                (\<exists>k. j \<le> k \<and> k < inDims \<and> k \<noteq> d \<and> acc ! k \<noteq> ti ! k)"
        (is "?L = ?R")
      proof
        assume ?L
        then obtain k where "Suc j \<le> k" "k < inDims" "k \<noteq> d" "?acc ! k \<noteq> ti ! k" by blast
        then show ?R by (intro exI [of _ k]) simp
      next
        assume ?R
        then obtain k where k: "j \<le> k" "k < inDims" "k \<noteq> d" "acc ! k \<noteq> ti ! k" by blast
        with jd have "Suc j \<le> k" by simp
        with k show ?L by (intro exI [of _ k]) simp
      qed
      have nle: "\<not> Suc j \<le> d" "j \<le> d" using jd by simp_all
      show ?thesis unfolding step ih ex using nle by auto
    next
      case jd: False
      show ?thesis
      proof (cases "acc ! j = ti ! j")
        case eq: True
        have step: "fusedConcat_inner acc ti inDims d j = fusedConcat_inner acc ti inDims d (Suc j)"
          using True jd eq by (subst fusedConcat_inner.simps) simp
        have ih: "fusedConcat_inner acc ti inDims d (Suc j) =
                    (if \<exists>k. Suc j \<le> k \<and> k < inDims \<and> k \<noteq> d \<and> acc ! k \<noteq> ti ! k
                     then Inl ShapeMismatch
                     else Inr (if Suc j \<le> d then acc[d := acc ! d + ti ! d] else acc))"
          using "1.IH"(2) [OF True jd] eq "1.prems" by simp
        have ex: "(\<exists>k. Suc j \<le> k \<and> k < inDims \<and> k \<noteq> d \<and> acc ! k \<noteq> ti ! k) =
                  (\<exists>k. j \<le> k \<and> k < inDims \<and> k \<noteq> d \<and> acc ! k \<noteq> ti ! k)"
          (is "?L = ?R")
        proof
          assume ?L
          then obtain k where "Suc j \<le> k" "k < inDims" "k \<noteq> d" "acc ! k \<noteq> ti ! k" by blast
          then show ?R by (intro exI [of _ k]) simp
        next
          assume ?R
          then obtain k where k: "j \<le> k" "k < inDims" "k \<noteq> d" "acc ! k \<noteq> ti ! k" by blast
          with eq have "k \<noteq> j" by auto
          with k have "Suc j \<le> k" by simp
          with k show ?L by (intro exI [of _ k]) simp
        qed
        have jle: "(Suc j \<le> d) = (j \<le> d)" using jd by auto
        show ?thesis unfolding step ih ex jle by auto
      next
        case ne: False
        have step: "fusedConcat_inner acc ti inDims d j = Inl ShapeMismatch"
          using True jd ne by (subst fusedConcat_inner.simps) simp
        have "\<exists>k. j \<le> k \<and> k < inDims \<and> k \<noteq> d \<and> acc ! k \<noteq> ti ! k"
          using True jd ne by (intro exI [of _ j]) simp
        then show ?thesis unfolding step by auto
      qed
    qed
  qed
qed

lemma fusedConcat_inner_0:
  "length acc = n \<Longrightarrow> length ti = n \<Longrightarrow> d < n \<Longrightarrow>
   fusedConcat_inner acc ti n d 0 =
     (if \<exists>k<n. k \<noteq> d \<and> acc ! k \<noteq> ti ! k then Inl ShapeMismatch
      else Inr (acc[d := acc ! d + ti ! d]))"
  by (auto simp add: fusedConcat_inner_eq)


lemma fusedConcat_outer_ok:
  "length acc = n \<Longrightarrow> d < n \<Longrightarrow>
   (\<And>i. i0 \<le> i \<Longrightarrow> i < length ms \<Longrightarrow>
      length (shape (ms ! i)) = n \<and> (\<forall>k<n. k \<noteq> d \<longrightarrow> shape (ms ! i) ! k = acc ! k)) \<Longrightarrow>
   fusedConcat_outer ms n d i0 acc =
     Inr (acc[d := acc ! d + sum_list (map (\<lambda>m. shape m ! d) (drop i0 ms))])"
proof (induction ms n d i0 acc rule: fusedConcat_outer.induct)
  case (1 ms n d i acc)
  show ?case
  proof (cases "i < length ms")
    case False
    then show ?thesis
      by (subst fusedConcat_outer.simps) simp
  next
    case True
    let ?ti = "shape (ms ! i)"
    let ?acc = "acc[d := acc ! d + ?ti ! d]"
    have ag: "length ?ti = n" "\<forall>k<n. k \<noteq> d \<longrightarrow> ?ti ! k = acc ! k"
      using "1.prems"(3) [of i] True by simp_all
    have inner: "fusedConcat_inner acc ?ti n d 0 = Inr ?acc"
      using ag "1.prems"(1,2) by (subst fusedConcat_inner_0) auto
    have step: "fusedConcat_outer ms n d i acc = fusedConcat_outer ms n d (Suc i) ?acc"
      using True ag(1) inner by (subst fusedConcat_outer.simps) simp
    have nr: "\<not> n \<noteq> length ?ti" using ag(1) by simp
    have ih: "fusedConcat_outer ms n d (Suc i) ?acc =
                Inr (?acc[d := ?acc ! d + sum_list (map (\<lambda>m. shape m ! d) (drop (Suc i) ms))])"
    proof (rule "1.IH" [OF True _ inner])
      show "\<not> n \<noteq> length ?ti" by (rule nr)
      show "length ?acc = n" using "1.prems"(1) by simp
      show "d < n" by (rule "1.prems"(2))
      fix i' assume "Suc i \<le> i'" "i' < length ms"
      then show "length (shape (ms ! i')) = n \<and>
                 (\<forall>k<n. k \<noteq> d \<longrightarrow> shape (ms ! i') ! k = ?acc ! k)"
        using "1.prems"(3) [of i'] by simp
    qed
    have dr: "drop i ms = ms ! i # drop (Suc i) ms"
      using True by (simp add: Cons_nth_drop_Suc)
    show ?thesis
      unfolding step ih dr using "1.prems"(1,2) by (simp add: add.assoc)
  qed
qed

lemma fusedConcat_outer_fail:
  "length acc = n \<Longrightarrow> d < n \<Longrightarrow> i0 \<le> k \<Longrightarrow> k < length ms \<Longrightarrow>
   (\<And>i. i0 \<le> i \<Longrightarrow> i < k \<Longrightarrow>
      length (shape (ms ! i)) = n \<and> (\<forall>j<n. j \<noteq> d \<longrightarrow> shape (ms ! i) ! j = acc ! j)) \<Longrightarrow>
   \<not> (length (shape (ms ! k)) = n \<and> (\<forall>j<n. j \<noteq> d \<longrightarrow> shape (ms ! k) ! j = acc ! j)) \<Longrightarrow>
   fusedConcat_outer ms n d i0 acc =
     (if length (shape (ms ! k)) \<noteq> n then Inl RankMismatch else Inl ShapeMismatch)"
proof (induction ms n d i0 acc rule: fusedConcat_outer.induct)
  case (1 ms n d i acc)
  have True: "i < length ms" using "1.prems"(3,4) by simp
  let ?ti = "shape (ms ! i)"
  let ?acc = "acc[d := acc ! d + ?ti ! d]"
  show ?case
  proof (cases "i = k")
    case ik: True
    show ?thesis
    proof (cases "length ?ti = n")
      case False
      with True ik show ?thesis
        by (subst fusedConcat_outer.simps) auto
    next
      case len: True
      with "1.prems"(6) ik have "\<exists>j<n. j \<noteq> d \<and> acc ! j \<noteq> ?ti ! j" by auto
      then have inner: "fusedConcat_inner acc ?ti n d 0 = Inl ShapeMismatch"
        using len "1.prems"(1,2) by (subst fusedConcat_inner_0) auto
      with True len ik show ?thesis
        by (subst fusedConcat_outer.simps) simp
    qed
  next
    case ik: False
    then have lt: "i < k" using "1.prems"(3) by simp
    have ag: "length ?ti = n" "\<forall>j<n. j \<noteq> d \<longrightarrow> ?ti ! j = acc ! j"
      using "1.prems"(5) [of i] lt by simp_all
    have inner: "fusedConcat_inner acc ?ti n d 0 = Inr ?acc"
      using ag "1.prems"(1,2) by (subst fusedConcat_inner_0) auto
    have step: "fusedConcat_outer ms n d i acc = fusedConcat_outer ms n d (Suc i) ?acc"
      using True ag(1) inner by (subst fusedConcat_outer.simps) simp
    have nr: "\<not> n \<noteq> length ?ti" using ag(1) by simp
    have ih: "fusedConcat_outer ms n d (Suc i) ?acc =
                (if length (shape (ms ! k)) \<noteq> n then Inl RankMismatch else Inl ShapeMismatch)"
    proof (rule "1.IH" [OF True nr inner])
      show "length ?acc = n" using "1.prems"(1) by simp
      show "d < n" by (rule "1.prems"(2))
      show "Suc i \<le> k" using lt by simp
      show "k < length ms" by (rule "1.prems"(4))
      show "\<not> (length (shape (ms ! k)) = n \<and>
               (\<forall>j<n. j \<noteq> d \<longrightarrow> shape (ms ! k) ! j = ?acc ! j))"
        using "1.prems"(6) by simp
      fix i' assume "Suc i \<le> i'" "i' < k"
      then show "length (shape (ms ! i')) = n \<and>
                 (\<forall>j<n. j \<noteq> d \<longrightarrow> shape (ms ! i') ! j = ?acc ! j)"
        using "1.prems"(5) [of i'] by simp
    qed
    show ?thesis unfolding step ih ..
  qed
qed


text \<open>
  Claim C5 says that \<open>RankMismatch\<close> is raised if any later input's rank differs from
  the first's. The checks run input by input, so an earlier input that differs at a
  non-concat dimension is reported first: for \<open>[2,3]\<close>, \<open>[3,3]\<close>, \<open>[1]\<close> along 1 the
  third input has another rank and the error is \<open>ShapeMismatch\<close>.
\<close>

theorem fusedConcat_reports_first_offender:
  "fusedConcat [\<lparr>shape = [2, 3], intValue = []\<rparr>, \<lparr>shape = [3, 3], intValue = []\<rparr>,
                \<lparr>shape = [1], intValue = []\<rparr>] 1 = Inl ShapeMismatch \<and>
   length (shape \<lparr>shape = [1], intValue = []\<rparr>) \<noteq> length (shape \<lparr>shape = [2, 3], intValue = []\<rparr>)"
proof -
  have a: "fusedConcat [\<lparr>shape = [2, 3], intValue = []\<rparr>, \<lparr>shape = [3, 3], intValue = []\<rparr>,
                        \<lparr>shape = [1], intValue = []\<rparr>] 1 = Inl ShapeMismatch"
    by code_simp
  show ?thesis unfolding a by simp
qed

text \<open>
  Claim C5, amended. \<open>fusedConcat\<close> fails with \<open>ArityMismatch\<close> without inputs and
  returns the shape of a single input whatever the dimension is. With two or more
  inputs the dimension is the attribute \<open>dim\<close>, with the first input's rank added when
  it is negative, and outside \<open>[0, rank)\<close> the rule fails with \<open>DimOutOfRange\<close>. The
  later inputs are checked in order: the first one that does not fit the first input
  decides the error, \<open>RankMismatch\<close> when its rank differs and \<open>ShapeMismatch\<close> when
  its rank is the same and a size outside the concat dimension differs. When every
  later input fits, the result is the first input's shape with the sum of all inputs'
  sizes at the concat dimension (in \<open>int64_t\<close> arithmetic). \<open>[2,3]\<close> and \<open>[2,4]\<close> along
  1 give \<open>[2,7]\<close>; \<open>[2,3]\<close> and \<open>[3,3]\<close> along 1 give \<open>ShapeMismatch\<close>.
\<close>

theorem fusedConcat_rule:
  assumes "d = (if sint dimv < 0 then sint dimv + int (length (shape (ms ! 0))) else sint dimv)"
  shows "(length ms = 0 \<longrightarrow> fusedConcat ms dimv = Inl ArityMismatch) \<and>
         (length ms = 1 \<longrightarrow> fusedConcat ms dimv = Inr (shape (ms ! 0))) \<and>
         (2 \<le> length ms \<and> \<not> (0 \<le> d \<and> d < int (length (shape (ms ! 0))))
            \<longrightarrow> fusedConcat ms dimv = Inl DimOutOfRange) \<and>
         (2 \<le> length ms \<and> 0 \<le> d \<and> d < int (length (shape (ms ! 0))) \<and>
          1 \<le> k \<and> k < length ms \<and>
          (\<forall>i. 1 \<le> i \<and> i < k \<longrightarrow>
             length (shape (ms ! i)) = length (shape (ms ! 0)) \<and>
             (\<forall>j<length (shape (ms ! 0)). j \<noteq> nat d \<longrightarrow> shape (ms ! i) ! j = shape (ms ! 0) ! j)) \<and>
          length (shape (ms ! k)) \<noteq> length (shape (ms ! 0))
            \<longrightarrow> fusedConcat ms dimv = Inl RankMismatch) \<and>
         (2 \<le> length ms \<and> 0 \<le> d \<and> d < int (length (shape (ms ! 0))) \<and>
          1 \<le> k \<and> k < length ms \<and>
          (\<forall>i. 1 \<le> i \<and> i < k \<longrightarrow>
             length (shape (ms ! i)) = length (shape (ms ! 0)) \<and>
             (\<forall>j<length (shape (ms ! 0)). j \<noteq> nat d \<longrightarrow> shape (ms ! i) ! j = shape (ms ! 0) ! j)) \<and>
          length (shape (ms ! k)) = length (shape (ms ! 0)) \<and>
          (\<exists>j<length (shape (ms ! 0)). j \<noteq> nat d \<and> shape (ms ! k) ! j \<noteq> shape (ms ! 0) ! j)
            \<longrightarrow> fusedConcat ms dimv = Inl ShapeMismatch) \<and>
         (2 \<le> length ms \<and> 0 \<le> d \<and> d < int (length (shape (ms ! 0))) \<and>
          (\<forall>i. 1 \<le> i \<and> i < length ms \<longrightarrow>
             length (shape (ms ! i)) = length (shape (ms ! 0)) \<and>
             (\<forall>j<length (shape (ms ! 0)). j \<noteq> nat d \<longrightarrow> shape (ms ! i) ! j = shape (ms ! 0) ! j))
            \<longrightarrow> fusedConcat ms dimv =
                  Inr ((shape (ms ! 0))[nat d := sum_list (map (\<lambda>m. shape m ! nat d) ms)])) \<and>
         fusedConcat [\<lparr>shape = [2, 3], intValue = []\<rparr>, \<lparr>shape = [2, 4], intValue = []\<rparr>] 1 =
           Inr [2, 7] \<and>
         fusedConcat [\<lparr>shape = [2, 3], intValue = []\<rparr>, \<lparr>shape = [3, 3], intValue = []\<rparr>] 1 =
           Inl ShapeMismatch"
proof -
  let ?sh = "shape (ms ! 0)"
  let ?n = "length ?sh"
  have start: "fusedConcat ms dimv = fusedConcat_outer ms ?n (nat d) 1 ?sh"
    if "2 \<le> length ms" "0 \<le> d" "d < int ?n"
    using that assms by (simp add: fusedConcat_def Let_def)
  have c1: "length ms = 0 \<longrightarrow> fusedConcat ms dimv = Inl ArityMismatch"
    by (simp add: fusedConcat_def)
  have c2: "length ms = 1 \<longrightarrow> fusedConcat ms dimv = Inr ?sh"
    by (simp add: fusedConcat_def)
  have c3: "2 \<le> length ms \<and> \<not> (0 \<le> d \<and> d < int ?n) \<longrightarrow> fusedConcat ms dimv = Inl DimOutOfRange"
    using assms by (auto simp add: fusedConcat_def Let_def)
  have fail: "fusedConcat ms dimv =
                (if length (shape (ms ! k)) \<noteq> ?n then Inl RankMismatch else Inl ShapeMismatch)"
    if v: "2 \<le> length ms" "0 \<le> d" "d < int ?n" and k: "1 \<le> k" "k < length ms"
      and pre: "\<forall>i. 1 \<le> i \<and> i < k \<longrightarrow>
             length (shape (ms ! i)) = ?n \<and>
             (\<forall>j<?n. j \<noteq> nat d \<longrightarrow> shape (ms ! i) ! j = ?sh ! j)"
      and bad: "\<not> (length (shape (ms ! k)) = ?n \<and>
                  (\<forall>j<?n. j \<noteq> nat d \<longrightarrow> shape (ms ! k) ! j = ?sh ! j))"
  proof -
    have "fusedConcat_outer ms ?n (nat d) 1 ?sh =
            (if length (shape (ms ! k)) \<noteq> ?n then Inl RankMismatch else Inl ShapeMismatch)"
    proof (rule fusedConcat_outer_fail)
      show "length ?sh = ?n" by simp
      show "nat d < ?n" using v by simp
      show "1 \<le> k" "k < length ms" using k by simp_all
      show "\<not> (length (shape (ms ! k)) = ?n \<and>
               (\<forall>j<?n. j \<noteq> nat d \<longrightarrow> shape (ms ! k) ! j = ?sh ! j))"
        by (rule bad)
      fix i assume "1 \<le> i" "i < k"
      with pre show "length (shape (ms ! i)) = ?n \<and>
                     (\<forall>j<?n. j \<noteq> nat d \<longrightarrow> shape (ms ! i) ! j = ?sh ! j)"
        by simp
    qed
    with start [OF v] show ?thesis by simp
  qed
  have c4: "2 \<le> length ms \<and> 0 \<le> d \<and> d < int ?n \<and> 1 \<le> k \<and> k < length ms \<and>
          (\<forall>i. 1 \<le> i \<and> i < k \<longrightarrow>
             length (shape (ms ! i)) = ?n \<and>
             (\<forall>j<?n. j \<noteq> nat d \<longrightarrow> shape (ms ! i) ! j = ?sh ! j)) \<and>
          length (shape (ms ! k)) \<noteq> ?n
            \<longrightarrow> fusedConcat ms dimv = Inl RankMismatch"
  proof
    assume h: "2 \<le> length ms \<and> 0 \<le> d \<and> d < int ?n \<and> 1 \<le> k \<and> k < length ms \<and>
          (\<forall>i. 1 \<le> i \<and> i < k \<longrightarrow>
             length (shape (ms ! i)) = ?n \<and>
             (\<forall>j<?n. j \<noteq> nat d \<longrightarrow> shape (ms ! i) ! j = ?sh ! j)) \<and>
          length (shape (ms ! k)) \<noteq> ?n"
    then have "fusedConcat ms dimv =
                (if length (shape (ms ! k)) \<noteq> ?n then Inl RankMismatch else Inl ShapeMismatch)"
      by (intro fail) simp_all
    with h show "fusedConcat ms dimv = Inl RankMismatch" by simp
  qed
  have c5: "2 \<le> length ms \<and> 0 \<le> d \<and> d < int ?n \<and> 1 \<le> k \<and> k < length ms \<and>
          (\<forall>i. 1 \<le> i \<and> i < k \<longrightarrow>
             length (shape (ms ! i)) = ?n \<and>
             (\<forall>j<?n. j \<noteq> nat d \<longrightarrow> shape (ms ! i) ! j = ?sh ! j)) \<and>
          length (shape (ms ! k)) = ?n \<and>
          (\<exists>j<?n. j \<noteq> nat d \<and> shape (ms ! k) ! j \<noteq> ?sh ! j)
            \<longrightarrow> fusedConcat ms dimv = Inl ShapeMismatch"
  proof
    assume h: "2 \<le> length ms \<and> 0 \<le> d \<and> d < int ?n \<and> 1 \<le> k \<and> k < length ms \<and>
          (\<forall>i. 1 \<le> i \<and> i < k \<longrightarrow>
             length (shape (ms ! i)) = ?n \<and>
             (\<forall>j<?n. j \<noteq> nat d \<longrightarrow> shape (ms ! i) ! j = ?sh ! j)) \<and>
          length (shape (ms ! k)) = ?n \<and>
          (\<exists>j<?n. j \<noteq> nat d \<and> shape (ms ! k) ! j \<noteq> ?sh ! j)"
    then have "\<not> (length (shape (ms ! k)) = ?n \<and>
                  (\<forall>j<?n. j \<noteq> nat d \<longrightarrow> shape (ms ! k) ! j = ?sh ! j))"
      by blast
    with h have "fusedConcat ms dimv =
                (if length (shape (ms ! k)) \<noteq> ?n then Inl RankMismatch else Inl ShapeMismatch)"
      by (intro fail) simp_all
    with h show "fusedConcat ms dimv = Inl ShapeMismatch" by simp
  qed
  have c6: "2 \<le> length ms \<and> 0 \<le> d \<and> d < int ?n \<and>
          (\<forall>i. 1 \<le> i \<and> i < length ms \<longrightarrow>
             length (shape (ms ! i)) = ?n \<and>
             (\<forall>j<?n. j \<noteq> nat d \<longrightarrow> shape (ms ! i) ! j = ?sh ! j))
            \<longrightarrow> fusedConcat ms dimv =
                  Inr (?sh[nat d := sum_list (map (\<lambda>m. shape m ! nat d) ms)])"
  proof
    assume h: "2 \<le> length ms \<and> 0 \<le> d \<and> d < int ?n \<and>
          (\<forall>i. 1 \<le> i \<and> i < length ms \<longrightarrow>
             length (shape (ms ! i)) = ?n \<and>
             (\<forall>j<?n. j \<noteq> nat d \<longrightarrow> shape (ms ! i) ! j = ?sh ! j))"
    then have v: "2 \<le> length ms" "0 \<le> d" "d < int ?n" by blast+
    have "fusedConcat_outer ms ?n (nat d) 1 ?sh =
            Inr (?sh[nat d := ?sh ! nat d + sum_list (map (\<lambda>m. shape m ! nat d) (drop 1 ms))])"
    proof (rule fusedConcat_outer_ok)
      show "length ?sh = ?n" by simp
      show "nat d < ?n" using v by simp
      fix i assume "1 \<le> i" "i < length ms"
      with h show "length (shape (ms ! i)) = ?n \<and>
                   (\<forall>k<?n. k \<noteq> nat d \<longrightarrow> shape (ms ! i) ! k = ?sh ! k)"
        by simp
    qed
    moreover have "sum_list (map (\<lambda>m. shape m ! nat d) ms) =
                 ?sh ! nat d + sum_list (map (\<lambda>m. shape m ! nat d) (drop 1 ms))"
    proof -
      from v(1) have "0 < length ms" by linarith
      from Cons_nth_drop_Suc [OF this] have dec: "ms ! 0 # drop 1 ms = ms" by simp
      have "sum_list (map (\<lambda>m. shape m ! nat d) (ms ! 0 # drop 1 ms)) =
              ?sh ! nat d + sum_list (map (\<lambda>m. shape m ! nat d) (drop 1 ms))"
        by (simp only: list.map sum_list.Cons)
      then show ?thesis unfolding dec .
    qed
    ultimately show "fusedConcat ms dimv =
                  Inr (?sh[nat d := sum_list (map (\<lambda>m. shape m ! nat d) ms)])"
      using start [OF v] by simp
  qed
  have e1: "fusedConcat [\<lparr>shape = [2, 3], intValue = []\<rparr>, \<lparr>shape = [2, 4], intValue = []\<rparr>] 1 =
           Inr [2, 7]"
    by code_simp
  have e2: "fusedConcat [\<lparr>shape = [2, 3], intValue = []\<rparr>, \<lparr>shape = [3, 3], intValue = []\<rparr>] 1 =
           Inl ShapeMismatch"
    by code_simp
  from c1 c2 c3 c4 c5 c6 e1 e2 show ?thesis by (intro conjI)
qed


theorem fusedConcat_rule_witness:
  "fusedConcat [\<lparr>shape = [2, 3], intValue = []\<rparr>, \<lparr>shape = [2, 4], intValue = []\<rparr>,
                \<lparr>shape = [2, 5], intValue = []\<rparr>] (- 1) = Inr [2, 12] \<and>
   fusedConcat [\<lparr>shape = [2, 3], intValue = []\<rparr>, \<lparr>shape = [2, 4], intValue = []\<rparr>,
                \<lparr>shape = [1], intValue = []\<rparr>] 1 = Inl RankMismatch \<and>
   fusedConcat [\<lparr>shape = [2, 3], intValue = []\<rparr>, \<lparr>shape = [2, 4], intValue = []\<rparr>,
                \<lparr>shape = [5, 4], intValue = []\<rparr>] 1 = Inl ShapeMismatch \<and>
   fusedConcat [\<lparr>shape = [2, 3], intValue = []\<rparr>, \<lparr>shape = [2, 4], intValue = []\<rparr>] 2 =
     Inl DimOutOfRange \<and>
   fusedConcat [\<lparr>shape = [2, 3], intValue = []\<rparr>] 5 = Inr [2, 3]"
proof -
  let ?a = "\<lparr>shape = [2, 3], intValue = []\<rparr>"
  let ?b = "\<lparr>shape = [2, 4], intValue = []\<rparr>"
  let ?c = "\<lparr>shape = [2, 5], intValue = []\<rparr>"
  let ?r = "\<lparr>shape = [1], intValue = []\<rparr>"
  let ?s = "\<lparr>shape = [5, 4], intValue = []\<rparr>"
  have d1: "(1::int) = (if sint (- 1 :: int64) < 0
              then sint (- 1 :: int64) + int (length (shape ([?a, ?b, ?c] ! 0))) else sint (- 1 :: int64))"
    by simp
  have ok: "\<forall>i. 1 \<le> i \<and> i < length [?a, ?b, ?c] \<longrightarrow>
             length (shape ([?a, ?b, ?c] ! i)) = length (shape ([?a, ?b, ?c] ! 0)) \<and>
             (\<forall>j<length (shape ([?a, ?b, ?c] ! 0)). j \<noteq> nat 1 \<longrightarrow>
                shape ([?a, ?b, ?c] ! i) ! j = shape ([?a, ?b, ?c] ! 0) ! j)"
    by (auto simp add: less_Suc_eq nth_Cons' numeral_2_eq_2 numeral_3_eq_3)
  from fusedConcat_rule [OF d1] ok
  have w1: "fusedConcat [?a, ?b, ?c] (- 1) = Inr [2, 12]" by simp
  have d2: "(1::int) = (if sint (1 :: int64) < 0
              then sint (1 :: int64) + int (length (shape ([?a, ?b, ?r] ! 0))) else sint (1 :: int64))"
    by simp
  have pre2: "\<forall>i. 1 \<le> i \<and> i < 2 \<longrightarrow>
             length (shape ([?a, ?b, ?r] ! i)) = length (shape ([?a, ?b, ?r] ! 0)) \<and>
             (\<forall>j<length (shape ([?a, ?b, ?r] ! 0)). j \<noteq> nat 1 \<longrightarrow>
                shape ([?a, ?b, ?r] ! i) ! j = shape ([?a, ?b, ?r] ! 0) ! j)"
    by (auto simp add: less_Suc_eq nth_Cons' numeral_2_eq_2 numeral_3_eq_3)
  from fusedConcat_rule [OF d2, of 2] pre2
  have w2: "fusedConcat [?a, ?b, ?r] 1 = Inl RankMismatch" by simp
  have d3: "(1::int) = (if sint (1 :: int64) < 0
              then sint (1 :: int64) + int (length (shape ([?a, ?b, ?s] ! 0))) else sint (1 :: int64))"
    by simp
  have pre3: "\<forall>i. 1 \<le> i \<and> i < 2 \<longrightarrow>
             length (shape ([?a, ?b, ?s] ! i)) = length (shape ([?a, ?b, ?s] ! 0)) \<and>
             (\<forall>j<length (shape ([?a, ?b, ?s] ! 0)). j \<noteq> nat 1 \<longrightarrow>
                shape ([?a, ?b, ?s] ! i) ! j = shape ([?a, ?b, ?s] ! 0) ! j)"
    by (auto simp add: less_Suc_eq nth_Cons' numeral_2_eq_2 numeral_3_eq_3)
  have bad3: "\<exists>j<length (shape ([?a, ?b, ?s] ! 0)). j \<noteq> nat 1 \<and>
                shape ([?a, ?b, ?s] ! 2) ! j \<noteq> shape ([?a, ?b, ?s] ! 0) ! j"
    by (intro exI [of _ 0]) simp
  from fusedConcat_rule [OF d3, of 2] pre3 bad3
  have w3: "fusedConcat [?a, ?b, ?s] 1 = Inl ShapeMismatch" by simp
  have d4: "(2::int) = (if sint (2 :: int64) < 0
              then sint (2 :: int64) + int (length (shape ([?a, ?b] ! 0))) else sint (2 :: int64))"
    by simp
  from fusedConcat_rule [OF d4]
  have w4: "fusedConcat [?a, ?b] 2 = Inl DimOutOfRange" by simp
  have d5: "(5::int) = (if sint (5 :: int64) < 0
              then sint (5 :: int64) + int (length (shape ([?a] ! 0))) else sint (5 :: int64))"
    by simp
  from fusedConcat_rule [OF d5]
  have w5: "fusedConcat [?a] 5 = Inr [2, 3]" by simp
  from w1 w2 w3 w4 w5 show ?thesis by (intro conjI)
qed

subsection \<open>Binary elementwise rule\<close>

lemma rindex_nat: "i < d \<Longrightarrow> nat (int d + (- 1 - int i)) = d - 1 - i"
  by simp

lemma vec_at_rindex:
  "vec_at t (int (length t) + (- 1 - int i)) =
     (if i < length t then Inr (t ! (length t - 1 - i)) else Inl UndefinedBehaviour)"
proof (cases "i < length t")
  case True
  then have e: "nat (int (length t) + (- 1 - int i)) = length t - 1 - i"
    by (rule rindex_nat)
  have p: "0 \<le> int (length t) + (- 1 - int i)" using True by simp
  have l: "length t - 1 - i < length t" using True by simp
  show ?thesis unfolding vec_at_def e using True p l by simp
next
  case False
  then show ?thesis by (simp add: vec_at_def)
qed

lemma binaryOp_loop_step:
  "binaryOp_loop t0 t1 n i out =
     (if i < n then
        (if i \<ge> length t0 \<or> t0 ! (length t0 - 1 - i) = 1 then
           (if i < length t1
            then binaryOp_loop t0 t1 n (Suc i) (out[n - 1 - i := t1 ! (length t1 - 1 - i)])
            else Inl UndefinedBehaviour)
         else if i \<ge> length t1 \<or> t1 ! (length t1 - 1 - i) = 1 then
           binaryOp_loop t0 t1 n (Suc i) (out[n - 1 - i := t0 ! (length t0 - 1 - i)])
         else if t1 ! (length t1 - 1 - i) \<noteq> t0 ! (length t0 - 1 - i) then Inl ShapeMismatch
         else binaryOp_loop t0 t1 n (Suc i) (out[n - 1 - i := t1 ! (length t1 - 1 - i)]))
      else Inr out)"
proof (cases "i < n")
  case False
  then show ?thesis by (subst binaryOp_loop.simps) simp
next
  case True
  have a: "nat (int n + (- 1 - int i)) = n - 1 - i" using True by simp
  have b: "i < length t0 \<Longrightarrow> nat (int (length t0) + (- 1 - int i)) = length t0 - 1 - i" by simp
  have c: "i < length t1 \<Longrightarrow> nat (int (length t1) + (- 1 - int i)) = length t1 - 1 - i" by simp
  show ?thesis
    apply (subst binaryOp_loop.simps)
    apply (simp only: Let_def vec_at_rindex a)
    using True b c apply (auto simp add: not_le)
    done
qed


lemma binaryOp_loop_Inr:
  "n - i = m \<Longrightarrow> binaryOp_loop t0 t1 n i out = Inr r \<Longrightarrow> length out = n \<Longrightarrow>
   length r = n \<and>
   (\<forall>k<i. k < n \<longrightarrow> r ! (n - 1 - k) = out ! (n - 1 - k)) \<and>
   (\<forall>k. i \<le> k \<and> k < n \<longrightarrow>
      (if k \<ge> length t0 \<or> t0 ! (length t0 - 1 - k) = 1
       then k < length t1 \<and> r ! (n - 1 - k) = t1 ! (length t1 - 1 - k)
       else if k \<ge> length t1 \<or> t1 ! (length t1 - 1 - k) = 1
       then r ! (n - 1 - k) = t0 ! (length t0 - 1 - k)
       else t1 ! (length t1 - 1 - k) = t0 ! (length t0 - 1 - k) \<and>
            r ! (n - 1 - k) = t1 ! (length t1 - 1 - k)))"
proof (induction m arbitrary: i out)
  case 0
  then have "\<not> i < n" by simp
  with 0 show ?case by (subst (asm) binaryOp_loop_step) auto
next
  case (Suc m)
  let ?P = "\<lambda>k v.
      (if k \<ge> length t0 \<or> t0 ! (length t0 - 1 - k) = 1
       then k < length t1 \<and> v = t1 ! (length t1 - 1 - k)
       else if k \<ge> length t1 \<or> t1 ! (length t1 - 1 - k) = 1
       then v = t0 ! (length t0 - 1 - k)
       else t1 ! (length t1 - 1 - k) = t0 ! (length t0 - 1 - k) \<and>
            v = t1 ! (length t1 - 1 - k))"
  from Suc.prems(1) have lt: "i < n" and m: "n - Suc i = m" by simp_all
  from Suc.prems(2) lt obtain x where
    rec: "binaryOp_loop t0 t1 n (Suc i) (out[n - 1 - i := x]) = Inr r" and px: "?P i x"
    by (subst (asm) binaryOp_loop_step) (auto split: if_splits)
  have len: "length (out[n - 1 - i := x]) = n" using Suc.prems(3) by simp
  from Suc.IH [OF m rec len]
  have l: "length r = n"
    and keep: "\<forall>k<Suc i. k < n \<longrightarrow> r ! (n - 1 - k) = out[n - 1 - i := x] ! (n - 1 - k)"
    and rest: "\<forall>k. Suc i \<le> k \<and> k < n \<longrightarrow> ?P k (r ! (n - 1 - k))"
    by blast+
  have ri: "r ! (n - 1 - i) = x"
    using keep lt Suc.prems(3) by simp
  have old: "\<forall>k<i. k < n \<longrightarrow> r ! (n - 1 - k) = out ! (n - 1 - k)"
  proof (intro allI impI)
    fix k assume k: "k < i" "k < n"
    then have "n - 1 - i \<noteq> n - 1 - k" using lt by simp
    moreover from keep k have "r ! (n - 1 - k) = out[n - 1 - i := x] ! (n - 1 - k)" by simp
    ultimately show "r ! (n - 1 - k) = out ! (n - 1 - k)" by simp
  qed
  have new: "\<forall>k. i \<le> k \<and> k < n \<longrightarrow> ?P k (r ! (n - 1 - k))"
  proof (intro allI impI)
    fix k assume k: "i \<le> k \<and> k < n"
    show "?P k (r ! (n - 1 - k))"
    proof (cases "k = i")
      case True
      have "?P i (r ! (n - 1 - i))" unfolding ri by (rule px)
      then show ?thesis unfolding True .
    next
      case False
      with k have "Suc i \<le> k \<and> k < n" by simp
      with rest show ?thesis by blast
    qed
  qed
  from l old new show ?case by blast
qed


lemma binaryOp_loop_commute:
  assumes a: "binaryOp_loop t0 t1 n 0 out = Inr r1"
    and b: "binaryOp_loop t1 t0 n 0 out' = Inr r2"
    and la: "length out = n" and lb: "length out' = n"
  shows "r1 = r2"
proof (rule nth_equalityI)
  from binaryOp_loop_Inr [OF refl a la]
  have l1: "length r1 = n"
    and p1: "\<forall>k. 0 \<le> k \<and> k < n \<longrightarrow>
      (if k \<ge> length t0 \<or> t0 ! (length t0 - 1 - k) = 1
       then k < length t1 \<and> r1 ! (n - 1 - k) = t1 ! (length t1 - 1 - k)
       else if k \<ge> length t1 \<or> t1 ! (length t1 - 1 - k) = 1
       then r1 ! (n - 1 - k) = t0 ! (length t0 - 1 - k)
       else t1 ! (length t1 - 1 - k) = t0 ! (length t0 - 1 - k) \<and>
            r1 ! (n - 1 - k) = t1 ! (length t1 - 1 - k))"
    by blast+
  from binaryOp_loop_Inr [OF refl b lb]
  have l2: "length r2 = n"
    and p2: "\<forall>k. 0 \<le> k \<and> k < n \<longrightarrow>
      (if k \<ge> length t1 \<or> t1 ! (length t1 - 1 - k) = 1
       then k < length t0 \<and> r2 ! (n - 1 - k) = t0 ! (length t0 - 1 - k)
       else if k \<ge> length t0 \<or> t0 ! (length t0 - 1 - k) = 1
       then r2 ! (n - 1 - k) = t1 ! (length t1 - 1 - k)
       else t0 ! (length t0 - 1 - k) = t1 ! (length t1 - 1 - k) \<and>
            r2 ! (n - 1 - k) = t0 ! (length t0 - 1 - k))"
    by blast+
  show "length r1 = length r2" using l1 l2 by simp
  fix p assume "p < length r1"
  then have p: "p < n" using l1 by simp
  define k where "k = n - 1 - p"
  have k: "k < n" "n - 1 - k = p" using p by (simp_all add: k_def)
  from p1 k(1) have q1:
      "(if k \<ge> length t0 \<or> t0 ! (length t0 - 1 - k) = 1
       then k < length t1 \<and> r1 ! (n - 1 - k) = t1 ! (length t1 - 1 - k)
       else if k \<ge> length t1 \<or> t1 ! (length t1 - 1 - k) = 1
       then r1 ! (n - 1 - k) = t0 ! (length t0 - 1 - k)
       else t1 ! (length t1 - 1 - k) = t0 ! (length t0 - 1 - k) \<and>
            r1 ! (n - 1 - k) = t1 ! (length t1 - 1 - k))"
    by blast
  from p2 k(1) have q2:
      "(if k \<ge> length t1 \<or> t1 ! (length t1 - 1 - k) = 1
       then k < length t0 \<and> r2 ! (n - 1 - k) = t0 ! (length t0 - 1 - k)
       else if k \<ge> length t0 \<or> t0 ! (length t0 - 1 - k) = 1
       then r2 ! (n - 1 - k) = t1 ! (length t1 - 1 - k)
       else t0 ! (length t0 - 1 - k) = t1 ! (length t1 - 1 - k) \<and>
            r2 ! (n - 1 - k) = t0 ! (length t0 - 1 - k))"
    by blast
  from q1 q2 have "r1 ! (n - 1 - k) = r2 ! (n - 1 - k)"
    by (auto split: if_splits)
  then show "r1 ! p = r2 ! p" unfolding k(2) .
qed

lemma binaryOp_loop_mismatch:
  "k - i = m \<Longrightarrow> i \<le> k \<Longrightarrow> k < n \<Longrightarrow> k < length t0 \<Longrightarrow> k < length t1 \<Longrightarrow>
   t0 ! (length t0 - 1 - k) \<noteq> 1 \<Longrightarrow> t1 ! (length t1 - 1 - k) \<noteq> 1 \<Longrightarrow>
   t1 ! (length t1 - 1 - k) \<noteq> t0 ! (length t0 - 1 - k) \<Longrightarrow>
   binaryOp_loop t0 t1 n i out = Inl ShapeMismatch"
proof (induction m arbitrary: i out)
  case 0
  then have ik: "i = k" by simp
  from 0 show ?case unfolding ik by (subst binaryOp_loop_step) simp
next
  case (Suc m)
  then have lt: "i < k" and m: "k - Suc i = m" and le: "Suc i \<le> k" by simp_all
  have rec: "binaryOp_loop t0 t1 n (Suc i) out' = Inl ShapeMismatch" for out'
    using Suc.IH [OF m le Suc.prems(3-8)] .
  have "i < n" "i < length t1" using lt Suc.prems by simp_all
  then show ?case
    by (subst binaryOp_loop_step) (simp add: rec)
qed

lemma binaryOp_loop_succeeds:
  "n - i = m \<Longrightarrow>
   (\<And>k. i \<le> k \<Longrightarrow> k < n \<Longrightarrow>
      (k \<ge> length t0 \<or> t0 ! (length t0 - 1 - k) = 1 \<longrightarrow> k < length t1) \<and>
      (k < length t0 \<and> k < length t1 \<and> t0 ! (length t0 - 1 - k) \<noteq> 1 \<and>
       t1 ! (length t1 - 1 - k) \<noteq> 1 \<longrightarrow> t1 ! (length t1 - 1 - k) = t0 ! (length t0 - 1 - k))) \<Longrightarrow>
   \<exists>r. binaryOp_loop t0 t1 n i out = Inr r"
proof (induction m arbitrary: i out)
  case 0
  then show ?case by (subst binaryOp_loop_step) simp
next
  case (Suc m)
  then have lt: "i < n" and m: "n - Suc i = m" by simp_all
  have rec: "\<exists>r. binaryOp_loop t0 t1 n (Suc i) out' = Inr r" for out'
  proof (rule Suc.IH [OF m])
    fix k assume "Suc i \<le> k" "k < n"
    then show "(k \<ge> length t0 \<or> t0 ! (length t0 - 1 - k) = 1 \<longrightarrow> k < length t1) \<and>
      (k < length t0 \<and> k < length t1 \<and> t0 ! (length t0 - 1 - k) \<noteq> 1 \<and>
       t1 ! (length t1 - 1 - k) \<noteq> 1 \<longrightarrow> t1 ! (length t1 - 1 - k) = t0 ! (length t0 - 1 - k))"
      using Suc.prems(2) [of k] by simp
  qed
  from Suc.prems(2) [of i] lt
  have here: "(i \<ge> length t0 \<or> t0 ! (length t0 - 1 - i) = 1 \<longrightarrow> i < length t1)"
    "(i < length t0 \<and> i < length t1 \<and> t0 ! (length t0 - 1 - i) \<noteq> 1 \<and>
       t1 ! (length t1 - 1 - i) \<noteq> 1 \<longrightarrow> t1 ! (length t1 - 1 - i) = t0 ! (length t0 - 1 - i))"
    by simp_all
  show ?case
    using lt here by (subst binaryOp_loop_step) (auto simp add: rec not_le)
qed


text \<open>
  What \<open>binaryOp\<close> does for two or three inputs, wherever the loop does not leave
  the second shape: a second shape of rank 1 returns the first shape; a dimension where
  both sizes are present, neither is 1 and they differ gives \<open>ShapeMismatch\<close>; a result
  has rank \<open>max d0 d1\<close> and, counted from the right, takes the second shape's size
  where the first shape lacks the dimension or has size 1, the first shape's size where
  the second lacks it or has size 1, and the common size otherwise; and the rule
  succeeds when no dimension mismatches and the first shape has no size 1 at a dimension
  the second lacks.
\<close>

lemma binaryOp_without_fault:
  assumes ar: "length ms = 2 \<or> length ms = 3"
    and t0: "t0 = shape (ms ! 0)" and t1: "t1 = shape (ms ! 1)"
    and n: "n = max (length t0) (length t1)"
  shows "(length t1 = 1 \<longrightarrow> binaryOp ms = Inr t0) \<and>
         (length t1 \<noteq> 1 \<and>
          (\<exists>k. k < length t0 \<and> k < length t1 \<and> t0 ! (length t0 - 1 - k) \<noteq> 1 \<and>
               t1 ! (length t1 - 1 - k) \<noteq> 1 \<and>
               t1 ! (length t1 - 1 - k) \<noteq> t0 ! (length t0 - 1 - k))
            \<longrightarrow> binaryOp ms = Inl ShapeMismatch) \<and>
         (length t1 \<noteq> 1 \<and> binaryOp ms = Inr r
            \<longrightarrow> length r = n \<and>
                (\<forall>k<n.
                   if k \<ge> length t0 \<or> t0 ! (length t0 - 1 - k) = 1
                   then k < length t1 \<and> r ! (n - 1 - k) = t1 ! (length t1 - 1 - k)
                   else if k \<ge> length t1 \<or> t1 ! (length t1 - 1 - k) = 1
                   then r ! (n - 1 - k) = t0 ! (length t0 - 1 - k)
                   else t1 ! (length t1 - 1 - k) = t0 ! (length t0 - 1 - k) \<and>
                        r ! (n - 1 - k) = t1 ! (length t1 - 1 - k))) \<and>
         (length t1 \<noteq> 1 \<and>
          (\<forall>k. k < length t0 \<and> k < length t1 \<and> t0 ! (length t0 - 1 - k) \<noteq> 1 \<and>
               t1 ! (length t1 - 1 - k) \<noteq> 1
                 \<longrightarrow> t1 ! (length t1 - 1 - k) = t0 ! (length t0 - 1 - k)) \<and>
          (\<forall>k. length t1 \<le> k \<and> k < length t0 \<longrightarrow> t0 ! (length t0 - 1 - k) \<noteq> 1)
            \<longrightarrow> (\<exists>r. binaryOp ms = Inr r))"
proof -
  have loop: "binaryOp ms = binaryOp_loop t0 t1 n 0 (replicate n 0)" if "length t1 \<noteq> 1"
    using that ar t0 t1 n by (auto simp add: binaryOp_def Let_def)
  have c1: "length t1 = 1 \<longrightarrow> binaryOp ms = Inr t0"
    using ar t0 t1 by (auto simp add: binaryOp_def Let_def)
  have c2: "length t1 \<noteq> 1 \<and>
          (\<exists>k. k < length t0 \<and> k < length t1 \<and> t0 ! (length t0 - 1 - k) \<noteq> 1 \<and>
               t1 ! (length t1 - 1 - k) \<noteq> 1 \<and>
               t1 ! (length t1 - 1 - k) \<noteq> t0 ! (length t0 - 1 - k))
            \<longrightarrow> binaryOp ms = Inl ShapeMismatch"
  proof
    assume h: "length t1 \<noteq> 1 \<and>
          (\<exists>k. k < length t0 \<and> k < length t1 \<and> t0 ! (length t0 - 1 - k) \<noteq> 1 \<and>
               t1 ! (length t1 - 1 - k) \<noteq> 1 \<and>
               t1 ! (length t1 - 1 - k) \<noteq> t0 ! (length t0 - 1 - k))"
    then obtain k where k: "k < length t0" "k < length t1" "t0 ! (length t0 - 1 - k) \<noteq> 1"
      "t1 ! (length t1 - 1 - k) \<noteq> 1" "t1 ! (length t1 - 1 - k) \<noteq> t0 ! (length t0 - 1 - k)"
      by blast
    have kn: "k < n" using k(1) n by simp
    have "binaryOp_loop t0 t1 n 0 (replicate n 0) = Inl ShapeMismatch"
      by (rule binaryOp_loop_mismatch [OF refl _ kn k]) simp
    with loop h show "binaryOp ms = Inl ShapeMismatch" by simp
  qed
  have c3: "length t1 \<noteq> 1 \<and> binaryOp ms = Inr r
            \<longrightarrow> length r = n \<and>
                (\<forall>k<n.
                   if k \<ge> length t0 \<or> t0 ! (length t0 - 1 - k) = 1
                   then k < length t1 \<and> r ! (n - 1 - k) = t1 ! (length t1 - 1 - k)
                   else if k \<ge> length t1 \<or> t1 ! (length t1 - 1 - k) = 1
                   then r ! (n - 1 - k) = t0 ! (length t0 - 1 - k)
                   else t1 ! (length t1 - 1 - k) = t0 ! (length t0 - 1 - k) \<and>
                        r ! (n - 1 - k) = t1 ! (length t1 - 1 - k))"
  proof
    assume h: "length t1 \<noteq> 1 \<and> binaryOp ms = Inr r"
    with loop have run: "binaryOp_loop t0 t1 n 0 (replicate n 0) = Inr r" by simp
    have len: "length (replicate n (0 :: int64)) = n" by simp
    from binaryOp_loop_Inr [OF refl run len]
    have l: "length r = n"
      and p: "\<forall>k. 0 \<le> k \<and> k < n \<longrightarrow>
                   (if k \<ge> length t0 \<or> t0 ! (length t0 - 1 - k) = 1
                   then k < length t1 \<and> r ! (n - 1 - k) = t1 ! (length t1 - 1 - k)
                   else if k \<ge> length t1 \<or> t1 ! (length t1 - 1 - k) = 1
                   then r ! (n - 1 - k) = t0 ! (length t0 - 1 - k)
                   else t1 ! (length t1 - 1 - k) = t0 ! (length t0 - 1 - k) \<and>
                        r ! (n - 1 - k) = t1 ! (length t1 - 1 - k))"
      by blast+
    from l p
    show "length r = n \<and>
                (\<forall>k<n.
                   if k \<ge> length t0 \<or> t0 ! (length t0 - 1 - k) = 1
                   then k < length t1 \<and> r ! (n - 1 - k) = t1 ! (length t1 - 1 - k)
                   else if k \<ge> length t1 \<or> t1 ! (length t1 - 1 - k) = 1
                   then r ! (n - 1 - k) = t0 ! (length t0 - 1 - k)
                   else t1 ! (length t1 - 1 - k) = t0 ! (length t0 - 1 - k) \<and>
                        r ! (n - 1 - k) = t1 ! (length t1 - 1 - k))"
      by blast
  qed
  have c4: "length t1 \<noteq> 1 \<and>
          (\<forall>k. k < length t0 \<and> k < length t1 \<and> t0 ! (length t0 - 1 - k) \<noteq> 1 \<and>
               t1 ! (length t1 - 1 - k) \<noteq> 1
                 \<longrightarrow> t1 ! (length t1 - 1 - k) = t0 ! (length t0 - 1 - k)) \<and>
          (\<forall>k. length t1 \<le> k \<and> k < length t0 \<longrightarrow> t0 ! (length t0 - 1 - k) \<noteq> 1)
            \<longrightarrow> (\<exists>r. binaryOp ms = Inr r)"
  proof
    assume h: "length t1 \<noteq> 1 \<and>
          (\<forall>k. k < length t0 \<and> k < length t1 \<and> t0 ! (length t0 - 1 - k) \<noteq> 1 \<and>
               t1 ! (length t1 - 1 - k) \<noteq> 1
                 \<longrightarrow> t1 ! (length t1 - 1 - k) = t0 ! (length t0 - 1 - k)) \<and>
          (\<forall>k. length t1 \<le> k \<and> k < length t0 \<longrightarrow> t0 ! (length t0 - 1 - k) \<noteq> 1)"
    have "\<exists>r. binaryOp_loop t0 t1 n 0 (replicate n 0) = Inr r"
    proof (rule binaryOp_loop_succeeds [OF refl])
      fix k assume "0 \<le> k" and kn: "k < n"
      have a: "k \<ge> length t0 \<or> t0 ! (length t0 - 1 - k) = 1 \<longrightarrow> k < length t1"
      proof
        assume "k \<ge> length t0 \<or> t0 ! (length t0 - 1 - k) = 1"
        then show "k < length t1"
        proof
          assume "k \<ge> length t0"
          with kn n show ?thesis by simp
        next
          assume one: "t0 ! (length t0 - 1 - k) = 1"
          show ?thesis
          proof (rule ccontr)
            assume "\<not> k < length t1"
            then have ge: "length t1 \<le> k" by simp
            with kn n have "k < length t0" by simp
            with ge h one show False by blast
          qed
        qed
      qed
      from h have b: "k < length t0 \<and> k < length t1 \<and> t0 ! (length t0 - 1 - k) \<noteq> 1 \<and>
          t1 ! (length t1 - 1 - k) \<noteq> 1 \<longrightarrow> t1 ! (length t1 - 1 - k) = t0 ! (length t0 - 1 - k)"
        by blast
      from a b show "(k \<ge> length t0 \<or> t0 ! (length t0 - 1 - k) = 1 \<longrightarrow> k < length t1) \<and>
        (k < length t0 \<and> k < length t1 \<and> t0 ! (length t0 - 1 - k) \<noteq> 1 \<and>
         t1 ! (length t1 - 1 - k) \<noteq> 1 \<longrightarrow> t1 ! (length t1 - 1 - k) = t0 ! (length t0 - 1 - k))"
        by (rule conjI)
    qed
    with loop h show "\<exists>r. binaryOp ms = Inr r" by simp
  qed
  from c1 c2 c3 c4 show ?thesis by (intro conjI)
qed

text \<open>
  Claim C1 describes the result of \<open>binaryOp\<close> for every pair of shapes: the first
  shape itself when the second has rank 1, and otherwise a shape of rank
  \<open>max d0 d1\<close> that takes, at a dimension one operand lacks, the size of the other
  operand. For the shapes \<open>[1, 4, 3]\<close> and \<open>[4, 3]\<close> that is \<open>[1, 4, 3]\<close>. The source
  does not get there: at the leading dimension the first shape has size 1, the first
  branch of the loop is taken and reads \<open>t1[d1 + j]\<close> with \<open>d1 + j\<close> below zero, a read
  outside the vector.
\<close>

theorem binaryOp_reads_out_of_bounds:
  "binaryOp [\<lparr>shape = [1, 4, 3], intValue = []\<rparr>, \<lparr>shape = [4, 3], intValue = []\<rparr>] =
     Inl UndefinedBehaviour"
  by code_simp

text \<open>
  Claim C2 says that the two argument orders give the same shape whenever both succeed.
  They do not when an operand has rank 1: \<open>[2, 1]\<close> with \<open>[5]\<close> is \<open>[2, 1]\<close>, because a
  second operand of rank 1 is taken as a scalar, and \<open>[5]\<close> with \<open>[2, 1]\<close> is \<open>[2, 5]\<close>.
\<close>

theorem binaryOp_not_commutative:
  "binaryOp [\<lparr>shape = [2, 1], intValue = []\<rparr>, \<lparr>shape = [5], intValue = []\<rparr>] = Inr [2, 1] \<and>
   binaryOp [\<lparr>shape = [5], intValue = []\<rparr>, \<lparr>shape = [2, 1], intValue = []\<rparr>] = Inr [2, 5] \<and>
   binaryOp [\<lparr>shape = [2, 1], intValue = []\<rparr>, \<lparr>shape = [5], intValue = []\<rparr>] \<noteq>
   binaryOp [\<lparr>shape = [5], intValue = []\<rparr>, \<lparr>shape = [2, 1], intValue = []\<rparr>]"
proof -
  have a: "binaryOp [\<lparr>shape = [2, 1], intValue = []\<rparr>, \<lparr>shape = [5], intValue = []\<rparr>] = Inr [2, 1]"
    by code_simp
  have b: "binaryOp [\<lparr>shape = [5], intValue = []\<rparr>, \<lparr>shape = [2, 1], intValue = []\<rparr>] = Inr [2, 5]"
    by code_simp
  show ?thesis unfolding a b by simp
qed

text \<open>
  Claim C2, amended. For two shapes neither of which has rank 1, if \<open>binaryOp\<close>
  succeeds in both argument orders (with or without further inputs), the two resulting
  shapes are equal.
\<close>

theorem binaryOp_commutes:
  assumes "length (shape a) \<noteq> 1" and "length (shape b) \<noteq> 1"
    and "binaryOp (a # b # xs) = Inr r1" and "binaryOp (b # a # ys) = Inr r2"
  shows "r1 = r2"
proof -
  let ?n = "max (length (shape a)) (length (shape b))"
  from assms(3) assms(2)
  have x: "binaryOp_loop (shape a) (shape b) ?n 0 (replicate ?n 0) = Inr r1"
    by (simp add: binaryOp_def Let_def split: if_splits)
  from assms(4) assms(1)
  have y: "binaryOp_loop (shape b) (shape a) ?n 0 (replicate ?n 0) = Inr r2"
    by (simp add: binaryOp_def Let_def max.commute split: if_splits)
  from x y show ?thesis
    by (rule binaryOp_loop_commute) simp_all
qed

theorem binaryOp_commutes_witness:
  "length (shape \<lparr>shape = [5, 1, 3], intValue = []\<rparr>) \<noteq> 1 \<and>
   length (shape \<lparr>shape = [4, 3], intValue = []\<rparr>) \<noteq> 1 \<and>
   binaryOp [\<lparr>shape = [5, 1, 3], intValue = []\<rparr>, \<lparr>shape = [4, 3], intValue = []\<rparr>] = Inr [5, 4, 3] \<and>
   binaryOp [\<lparr>shape = [4, 3], intValue = []\<rparr>, \<lparr>shape = [5, 1, 3], intValue = []\<rparr>] = Inr [5, 4, 3] \<and>
   [5, 4, 3] = [5, 4, 3 :: int64]"
proof -
  let ?a = "\<lparr>shape = [5, 1, 3], intValue = []\<rparr>"
  let ?b = "\<lparr>shape = [4, 3], intValue = []\<rparr>"
  have h1: "length (shape ?a) \<noteq> 1" by simp
  have h2: "length (shape ?b) \<noteq> 1" by simp
  have h3: "binaryOp [?a, ?b] = Inr [5, 4, 3]" by code_simp
  have h4: "binaryOp [?b, ?a] = Inr [5, 4, 3]" by code_simp
  from binaryOp_commutes [OF h1 h2 h3 h4] h1 h2 h3 h4 show ?thesis by (intro conjI)
qed

subsection \<open>Sign of the inferred sizes\<close>

text \<open>
  Claim C3 says that no rule produces a negative size from non-negative input sizes, so
  that no such size is stored or returned by the pass. Splitting a dimension of size 5
  into 4 chunks gives the chunk size 2 and the last size \<open>5 - 2 * 3 = -1\<close>; \<open>run\<close>
  succeeds on the graph with that one node and returns the shape \<open>[-1]\<close> for its last
  output.
\<close>

theorem constantChunk_negative_size:
  "constantChunk [\<lparr>shape = [5], intValue = []\<rparr>] 4 0 = Inr [[2], [2], [2], [- 1]] \<and>
   sint (- 1 :: int64) = - 1 \<and>
   fst (run \<lparr>g_inputs = [0],
             g_nodes =
               [\<lparr>n_kind = ConstantChunk, n_inputs = [0], n_outputs = [1, 2, 3, 4],
                 n_type = TensorType, attr_value = 0, attr_tensor = [], attr_chunks = 4,
                 attr_dim = 0\<rparr>],
             g_outputs = [4]\<rparr>
            [IVTensor [5]] \<lparr>shapeMap = Map.empty, outputShape = []\<rparr>) = None \<and>
   outputShape
     (snd (run \<lparr>g_inputs = [0],
                g_nodes =
                  [\<lparr>n_kind = ConstantChunk, n_inputs = [0], n_outputs = [1, 2, 3, 4],
                    n_type = TensorType, attr_value = 0, attr_tensor = [], attr_chunks = 4,
                    attr_dim = 0\<rparr>],
                g_outputs = [4]\<rparr>
               [IVTensor [5]] \<lparr>shapeMap = Map.empty, outputShape = []\<rparr>)) = [[- 1]]"
proof -
  have cc: "constantChunk [\<lparr>shape = [5], intValue = []\<rparr>] 4 0 = Inr [[2], [2], [2], [- 1]]"
    by code_simp
  show ?thesis
    by (simp add: cc run_def shapeOnNode_def opRule_def set_shape_def)
qed

end
